theory Spec2Isabelle
  imports Main "HOL-Library.Multiset"
begin

section \<open>JavaScript strings used by the handlers\<close>

text \<open>
  \<open>server.js\<close> builds the object path with a template literal around \<open>Date.now()\<close>
  and reads \<open>email.split('@')[0]\<close> and \<open>authHeader.split('Bearer ')[1]\<close>.
  The three JavaScript primitives involved are modelled here: the decimal rendering of
  an integral Number, \<open>String.prototype.split\<close> with a string separator, and an
  array read that yields \<open>undefined\<close> (here \<open>None\<close>) out of range.
\<close>

definition digit_char :: "nat \<Rightarrow> char" where
  "digit_char d = char_of (48 + d)"

fun decimal :: "nat \<Rightarrow> string" where
  "decimal n = (if n < 10 then [digit_char n] else decimal (n div 10) @ [digit_char (n mod 10)])"

declare decimal.simps [simp del]

definition number_string :: "int \<Rightarrow> string" where
  "number_string i = (if i < 0 then CHR ''-'' # decimal (nat (- i)) else decimal (nat i))"

text \<open>The number a decimal string denotes, read left to right.\<close>

definition decimal_value :: "string \<Rightarrow> nat" where
  "decimal_value s = foldl (\<lambda>a c. 10 * a + (of_char c - 48)) 0 s"

fun split_from :: "string \<Rightarrow> string \<Rightarrow> string \<Rightarrow> string list" where
  "split_from sep acc [] = [rev acc]"
| "split_from sep acc (c # cs) =
     (if sep \<noteq> [] \<and> take (length sep) (c # cs) = sep
      then rev acc # split_from sep [] (drop (length sep - 1) cs)
      else split_from sep (c # acc) cs)"

definition js_split :: "string \<Rightarrow> string \<Rightarrow> string list" where
  "js_split sep s = (if sep = [] then map (\<lambda>c. [c]) s else split_from sep [] s)"

definition js_index :: "'a list \<Rightarrow> nat \<Rightarrow> 'a option" where
  "js_index xs i = (if i < length xs then Some (xs ! i) else None)"

section \<open>Data held by the platform\<close>

text \<open>
  The identity provider holds user records, the record store holds the collections
  \<open>users\<close> (keyed by uid) and \<open>files\<close> (keyed by the id that \<open>add\<close> assigns),
  the bucket holds objects by name. \<open>files\<close> is an association list because the list
  endpoint queries the whole collection.
\<close>

record userRecord =
  uid :: string
  ur_email :: string
  ur_password :: string
  ur_displayName :: "string option"

record userData =
  email :: string
  displayName :: string
  createdAt :: int
  uploads :: int

record fileData =
  userId :: string
  fileName :: string
  storagePath :: string
  fileSize :: nat
  mimeType :: string
  publicUrl :: string
  uploadedAt :: int

record storedObject =
  content :: "nat list"
  contentType :: string
  uploadedBy :: string
  originalName :: string
  isPublic :: bool

record multerFile =
  originalname :: string
  mimetype :: string
  file_size :: nat
  buffer :: "nat list"

record state =
  authUsers :: "userRecord list"
  users :: "string \<rightharpoonup> userData"
  files :: "(string \<times> fileData) list"
  objects :: "string \<rightharpoonup> storedObject"
  bucket_name :: string

section \<open>What the platform decides for one request\<close>

text \<open>
  Every SDK call of \<open>server.js\<close> is a remote call that may throw. For one request the
  environment fixes which calls fail (\<open>faults\<close>) and the values the platform chooses:
  the clock read by \<open>Date.now()\<close>, the value written for
  \<open>FieldValue.serverTimestamp()\<close>, the uid \<open>createUser\<close> assigns, the id
  \<open>add\<close> assigns and the token \<open>createCustomToken\<close> signs. A call that fails
  leaves the store it addressed as it was.
\<close>

datatype sdk_call =
    AuthCreateUser | AuthGetUserByEmail | AuthCreateCustomToken | AuthGetUser
  | UsersSet | UsersGet | UsersUpdate
  | FilesAdd | FilesQuery | FilesGet | FilesDelete
  | ObjectWrite | ObjectMakePublic | ObjectDelete

record env =
  faults :: "sdk_call list"
  now :: int
  serverTime :: int
  newUid :: string
  newDocId :: string
  signedToken :: string

definition fails :: "env \<Rightarrow> sdk_call \<Rightarrow> bool" where
  "fails e c = (c \<in> set (faults e))"

section \<open>Responses\<close>

text \<open>
  One constructor for each JSON body the handlers send. \<open>NoResponse\<close> is the outcome
  of a request whose handler never calls \<open>res.status(...).json(...)\<close>: the listener of
  the stream's \<open>finish\<close> event is an async function outside the handler's
  \<open>try\<close>, so a rejected \<open>await\<close> in it is not caught by anything.
\<close>

datatype body =
    Error string
  | ErrorDetails string string
  | PlatformErrorMessage
  | UserCreated string string "string option"
  | LoginSuccessful string string string string int
  | FileUploaded string string nat string string
  | FileList nat "(string \<times> fileData) list"
  | FileDeleted
  | HealthOK

datatype response = Response nat body | NoResponse

record result =
  resp :: response
  trace :: "sdk_call list"
  post :: state

definition reply :: "nat \<Rightarrow> body \<Rightarrow> sdk_call list \<Rightarrow> state \<Rightarrow> result" where
  "reply code b t s = \<lparr>resp = Response code b, trace = t, post = s\<rparr>"

definition unhandled :: "sdk_call list \<Rightarrow> state \<Rightarrow> result" where
  "unhandled t s = \<lparr>resp = NoResponse, trace = t, post = s\<rparr>"

section \<open>Platform operations\<close>

definition getUser :: "state \<Rightarrow> string \<Rightarrow> userRecord option" where
  "getUser s t = find (\<lambda>u. uid u = t) (authUsers s)"

definition getUserByEmail :: "state \<Rightarrow> string \<Rightarrow> userRecord option" where
  "getUserByEmail s em = find (\<lambda>u. ur_email u = em) (authUsers s)"

definition owned_by :: "string \<Rightarrow> (string \<times> fileData) \<Rightarrow> bool" where
  "owned_by u p = (userId (snd p) = u)"

definition orderBy_uploadedAt_desc :: "(string \<times> fileData) list \<Rightarrow> (string \<times> fileData) list" where
  "orderBy_uploadedAt_desc xs = sort_key (\<lambda>p. - uploadedAt (snd p)) xs"

definition files_query :: "state \<Rightarrow> string \<Rightarrow> (string \<times> fileData) list" where
  "files_query s u = orderBy_uploadedAt_desc (filter (owned_by u) (files s))"

definition increment :: "int \<Rightarrow> userData \<Rightarrow> userData" where
  "increment k d = d\<lparr>uploads := uploads d + k\<rparr>"

section \<open>Authentication endpoints\<close>

text \<open>
  A field of the JSON body is absent (\<open>None\<close>) or a string; \<open>!email\<close> holds for an
  absent field and for the empty string. \<open>createUser\<close> throws when the platform fails
  it, when the email is already registered, or when the uid is taken. Every \<open>catch\<close>
  of \<open>signup\<close> answers 400 with the platform's message; every \<open>catch\<close> of
  \<open>login\<close> answers 401.
\<close>

definition signup :: "env \<Rightarrow> string option \<Rightarrow> string option \<Rightarrow> string option \<Rightarrow> state \<Rightarrow> result" where
  "signup e email_in password_in displayName_in s =
     (case (email_in, password_in) of
        (Some em, Some pw) \<Rightarrow>
          if em = [] \<or> pw = [] then reply 400 (Error ''Email and password are required'') [] s
          else
            let dn = (case displayName_in of
                        Some d \<Rightarrow> if d \<noteq> [] then Some d else js_index (js_split ''@'' em) 0
                      | None \<Rightarrow> js_index (js_split ''@'' em) 0)
            in if fails e AuthCreateUser \<or> getUserByEmail s em \<noteq> None \<or> getUser s (newUid e) \<noteq> None
               then reply 400 PlatformErrorMessage [AuthCreateUser] s
               else
                 let userRecord = \<lparr>uid = newUid e, ur_email = em, ur_password = pw, ur_displayName = dn\<rparr>;
                     s1 = s\<lparr>authUsers := authUsers s @ [userRecord]\<rparr>
                 in (case dn of
                       None \<Rightarrow> reply 400 PlatformErrorMessage [AuthCreateUser, UsersSet] s1
                     | Some name \<Rightarrow>
                         if fails e UsersSet
                         then reply 400 PlatformErrorMessage [AuthCreateUser, UsersSet] s1
                         else reply 201 (UserCreated (newUid e) em dn) [AuthCreateUser, UsersSet]
                                (s1\<lparr>users := (users s1)(newUid e \<mapsto>
                                   \<lparr>email = em, displayName = name, createdAt = serverTime e, uploads = 0\<rparr>)\<rparr>))
      | _ \<Rightarrow> reply 400 (Error ''Email and password are required'') [] s)"

definition login :: "env \<Rightarrow> string option \<Rightarrow> string option \<Rightarrow> state \<Rightarrow> result" where
  "login e email_in password_in s =
     (case (email_in, password_in) of
        (Some em, Some pw) \<Rightarrow>
          if em = [] \<or> pw = [] then reply 400 (Error ''Email and password are required'') [] s
          else if fails e AuthGetUserByEmail
          then reply 401 (Error ''Invalid credentials'') [AuthGetUserByEmail] s
          else (case getUserByEmail s em of
                  None \<Rightarrow> reply 401 (Error ''Invalid credentials'') [AuthGetUserByEmail] s
                | Some userRecord \<Rightarrow>
                    if fails e AuthCreateCustomToken
                    then reply 401 (Error ''Invalid credentials'')
                           [AuthGetUserByEmail, AuthCreateCustomToken] s
                    else if fails e UsersGet
                    then reply 401 (Error ''Invalid credentials'')
                           [AuthGetUserByEmail, AuthCreateCustomToken, UsersGet] s
                    else
                      let userDoc = users s (uid userRecord);
                          dn = (case userDoc of
                                  Some d \<Rightarrow> if displayName d \<noteq> [] then displayName d
                                            else ur_email userRecord
                                | None \<Rightarrow> ur_email userRecord);
                          up = (case userDoc of
                                  Some d \<Rightarrow> if uploads d \<noteq> 0 then uploads d else 0
                                | None \<Rightarrow> 0)
                      in reply 200
                           (LoginSuccessful (signedToken e) (uid userRecord) (ur_email userRecord) dn up)
                           [AuthGetUserByEmail, AuthCreateCustomToken, UsersGet] s)
      | _ \<Rightarrow> reply 400 (Error ''Email and password are required'') [] s)"

section \<open>The middleware \<open>verifyToken\<close>\<close>

text \<open>
  The bearer value is taken as a uid and looked up with \<open>getUser\<close>. The middleware
  either answers 401 itself or passes \<open>req.user.uid\<close> on to the handler.
\<close>

definition verifyToken :: "env \<Rightarrow> string option \<Rightarrow> state \<Rightarrow> result + string" where
  "verifyToken e authHeader s =
     (case authHeader of
        None \<Rightarrow> Inl (reply 401 (Error ''No authorization header provided'') [] s)
      | Some h \<Rightarrow>
          if h = [] then Inl (reply 401 (Error ''No authorization header provided'') [] s)
          else (case js_index (js_split ''Bearer '' h) 1 of
                  None \<Rightarrow> Inl (reply 401 (Error ''No token provided'') [] s)
                | Some token \<Rightarrow>
                    if token = [] then Inl (reply 401 (Error ''No token provided'') [] s)
                    else if fails e AuthGetUser
                    then Inl (reply 401 (ErrorDetails ''Invalid or expired token'' ''Please login again'')
                                [AuthGetUser] s)
                    else (case getUser s token of
                            None \<Rightarrow>
                              Inl (reply 401 (ErrorDetails ''Invalid or expired token'' ''Please login again'')
                                     [AuthGetUser] s)
                          | Some userRecord \<Rightarrow> Inr (uid userRecord))))"

definition protected :: "(string \<Rightarrow> state \<Rightarrow> result) \<Rightarrow> env \<Rightarrow> string option \<Rightarrow> state \<Rightarrow> result" where
  "protected handler e authHeader s =
     (case verifyToken e authHeader s of
        Inl r \<Rightarrow> r
      | Inr u \<Rightarrow> (let r = handler u s in r\<lparr>trace := AuthGetUser # trace r\<rparr>))"

section \<open>File endpoints\<close>

definition object_name :: "string \<Rightarrow> int \<Rightarrow> string \<Rightarrow> string" where
  "object_name u t name = ''uploads/'' @ u @ ''/'' @ (number_string t @ ''_'' @ name)"

definition public_url :: "string \<Rightarrow> string \<Rightarrow> string" where
  "public_url b name = ''https://storage.googleapis.com/'' @ b @ ''/'' @ name"

text \<open>
  \<open>upload_handler\<close> is the body of \<open>app.post('/api/upload')\<close> after the two
  middlewares. \<open>stream.end(file.buffer)\<close> either emits \<open>error\<close> (answered with 500)
  or \<open>finish\<close>; the \<open>finish\<close> listener then awaits \<open>makePublic\<close>, \<open>add\<close> and
  \<open>update\<close> in this order and answers 200 after the last one. \<open>add\<close> creates the
  document and so fails on an id already present; \<open>update\<close> fails on a missing document.
  Writing to a name that is already in the bucket replaces the object. \<open>file_in\<close> is
  \<open>req.file\<close> as multer passes it on, so a file, when present, is within multer's
  size limit.
\<close>

definition upload_handler :: "env \<Rightarrow> multerFile option \<Rightarrow> string \<Rightarrow> state \<Rightarrow> result" where
  "upload_handler e file_in u s =
     (case file_in of
        None \<Rightarrow> reply 400 (Error ''No file uploaded'') [] s
      | Some file \<Rightarrow>
          let name = object_name u (now e) (originalname file)
          in if fails e ObjectWrite
             then reply 500 (Error ''Failed to upload file'') [ObjectWrite] s
             else
               let s1 = s\<lparr>objects := (objects s)(name \<mapsto>
                            \<lparr>content = buffer file, contentType = mimetype file, uploadedBy = u,
                             originalName = originalname file, isPublic = False\<rparr>)\<rparr>
               in if fails e ObjectMakePublic
                  then unhandled [ObjectWrite, ObjectMakePublic] s1
                  else
                    let s2 = s1\<lparr>objects := (objects s1)(name \<mapsto>
                                 \<lparr>content = buffer file, contentType = mimetype file, uploadedBy = u,
                                  originalName = originalname file, isPublic = True\<rparr>)\<rparr>;
                        url = public_url (bucket_name s) name
                    in if fails e FilesAdd \<or> map_of (files s2) (newDocId e) \<noteq> None
                       then unhandled [ObjectWrite, ObjectMakePublic, FilesAdd] s2
                       else
                         let fileDoc = \<lparr>userId = u, fileName = originalname file, storagePath = name,
                                        fileSize = file_size file, mimeType = mimetype file,
                                        publicUrl = url, uploadedAt = serverTime e\<rparr>;
                             s3 = s2\<lparr>files := files s2 @ [(newDocId e, fileDoc)]\<rparr>
                         in (case users s3 u of
                               None \<Rightarrow> unhandled [ObjectWrite, ObjectMakePublic, FilesAdd, UsersUpdate] s3
                             | Some d \<Rightarrow>
                                 if fails e UsersUpdate
                                 then unhandled [ObjectWrite, ObjectMakePublic, FilesAdd, UsersUpdate] s3
                                 else reply 200
                                        (FileUploaded (newDocId e) (originalname file) (file_size file)
                                           url (mimetype file))
                                        [ObjectWrite, ObjectMakePublic, FilesAdd, UsersUpdate]
                                        (s3\<lparr>users := (users s3)(u \<mapsto> increment 1 d)\<rparr>)))"

definition files_handler :: "env \<Rightarrow> string \<Rightarrow> state \<Rightarrow> result" where
  "files_handler e u s =
     (if fails e FilesQuery then reply 500 (Error ''Failed to fetch files'') [FilesQuery] s
      else let fs = files_query s u in reply 200 (FileList (length fs) fs) [FilesQuery] s)"

text \<open>
  \<open>delete_handler\<close>: the whole body is one \<open>try\<close>, so the first call that throws
  ends it with the same 500 answer. Deleting an object that is not in the bucket throws;
  deleting a document does not.
\<close>

definition delete_handler :: "env \<Rightarrow> string \<Rightarrow> string \<Rightarrow> state \<Rightarrow> result" where
  "delete_handler e fileId u s =
     (if fails e FilesGet then reply 500 (Error ''Failed to delete file'') [FilesGet] s
      else (case map_of (files s) fileId of
              None \<Rightarrow> reply 404 (Error ''File not found'') [FilesGet] s
            | Some fileDoc \<Rightarrow>
                if userId fileDoc \<noteq> u then reply 403 (Error ''Unauthorized'') [FilesGet] s
                else if fails e ObjectDelete \<or> objects s (storagePath fileDoc) = None
                then reply 500 (Error ''Failed to delete file'') [FilesGet, ObjectDelete] s
                else
                  let s1 = s\<lparr>objects := (objects s)(storagePath fileDoc := None)\<rparr>
                  in if fails e FilesDelete
                     then reply 500 (Error ''Failed to delete file'') [FilesGet, ObjectDelete, FilesDelete] s1
                     else
                       let s2 = s1\<lparr>files := filter (\<lambda>p. fst p \<noteq> fileId) (files s1)\<rparr>
                       in (case users s2 u of
                             None \<Rightarrow> reply 500 (Error ''Failed to delete file'')
                                       [FilesGet, ObjectDelete, FilesDelete, UsersUpdate] s2
                           | Some d \<Rightarrow>
                               if fails e UsersUpdate
                               then reply 500 (Error ''Failed to delete file'')
                                      [FilesGet, ObjectDelete, FilesDelete, UsersUpdate] s2
                               else reply 200 FileDeleted
                                      [FilesGet, ObjectDelete, FilesDelete, UsersUpdate]
                                      (s2\<lparr>users := (users s2)(u \<mapsto> increment (- 1) d)\<rparr>))))"

section \<open>The server as a transition system\<close>

datatype request =
    Signup "string option" "string option" "string option"
  | Login "string option" "string option"
  | Upload "string option" "multerFile option"
  | ListFiles "string option"
  | DeleteFile "string option" string
  | Health

fun serve :: "env \<Rightarrow> request \<Rightarrow> state \<Rightarrow> result" where
  "serve e (Signup em pw dn) s = signup e em pw dn s"
| "serve e (Login em pw) s = login e em pw s"
| "serve e (Upload h f) s = protected (upload_handler e f) e h s"
| "serve e (ListFiles h) s = protected (files_handler e) e h s"
| "serve e (DeleteFile h fileId) s = protected (delete_handler e fileId) e h s"
| "serve e Health s = reply 200 HealthOK [] s"

fun run :: "(env \<times> request) list \<Rightarrow> state \<Rightarrow> state" where
  "run [] s = s"
| "run (er # rest) s = run rest (post (serve (fst er) (snd er) s))"

definition initial :: "string \<Rightarrow> state" where
  "initial b = \<lparr>authUsers = [], users = Map.empty, files = [], objects = Map.empty, bucket_name = b\<rparr>"

section \<open>Invariant and schedule predicates\<close>

text \<open>
  \<open>counter_covers_records\<close>: every principal document counts at least the file
  records of its principal, and documents and records belong to registered users.
  \<open>increment_served\<close>: the request is not an upload whose counter update the platform
  fails.
\<close>

definition counter_covers_records :: "state \<Rightarrow> bool" where
  "counter_covers_records s =
     ((\<forall>u d. users s u = Some d \<longrightarrow> int (length (filter (owned_by u) (files s))) \<le> uploads d)
      \<and> (\<forall>u. users s u \<noteq> None \<longrightarrow> getUser s u \<noteq> None)
      \<and> (\<forall>p \<in> set (files s). getUser s (userId (snd p)) \<noteq> None))"

definition increment_served :: "env \<times> request \<Rightarrow> bool" where
  "increment_served er =
     (case snd er of Upload h f \<Rightarrow> \<not> fails (fst er) UsersUpdate | _ \<Rightarrow> True)"

section \<open>A small installation used for the concrete runs\<close>

definition platform :: "sdk_call list \<Rightarrow> int \<Rightarrow> string \<Rightarrow> env" where
  "platform fs t i =
     \<lparr>faults = fs, now = t, serverTime = t, newUid = i, newDocId = i, signedToken = ''token''\<rparr>"

definition ann :: userRecord where
  "ann = \<lparr>uid = ''u1'', ur_email = ''ann@example.com'', ur_password = ''secret1'',
          ur_displayName = Some ''ann''\<rparr>"

definition bob :: userRecord where
  "bob = \<lparr>uid = ''u2'', ur_email = ''bob@example.com'', ur_password = ''secret2'',
          ur_displayName = Some ''bob''\<rparr>"

definition ann_doc :: userData where
  "ann_doc = \<lparr>email = ''ann@example.com'', displayName = ''ann'', createdAt = 1, uploads = 0\<rparr>"

definition bob_doc :: userData where
  "bob_doc = \<lparr>email = ''bob@example.com'', displayName = ''bob'', createdAt = 2, uploads = 0\<rparr>"

definition photo :: multerFile where
  "photo = \<lparr>originalname = ''a.jpg'', mimetype = ''image/jpeg'', file_size = 3, buffer = [255, 216, 255]\<rparr>"

definition retake :: multerFile where
  "retake = \<lparr>originalname = ''a.jpg'', mimetype = ''image/jpeg'', file_size = 2, buffer = [7, 8]\<rparr>"

definition two_users :: state where
  "two_users = \<lparr>authUsers = [ann, bob], users = [''u1'' \<mapsto> ann_doc, ''u2'' \<mapsto> bob_doc],
                files = [], objects = Map.empty, bucket_name = ''demo.appspot.com''\<rparr>"

definition ann_file :: fileData where
  "ann_file = \<lparr>userId = ''u1'', fileName = ''a.jpg'', storagePath = ''uploads/u1/5_a.jpg'',
               fileSize = 3, mimeType = ''image/jpeg'',
               publicUrl = ''https://storage.googleapis.com/demo.appspot.com/uploads/u1/5_a.jpg'',
               uploadedAt = 5\<rparr>"

definition ann_object :: storedObject where
  "ann_object = \<lparr>content = [255, 216, 255], contentType = ''image/jpeg'', uploadedBy = ''u1'',
                 originalName = ''a.jpg'', isPublic = True\<rparr>"

definition one_file :: state where
  "one_file = \<lparr>authUsers = [ann, bob],
               users = [''u1'' \<mapsto> ann_doc\<lparr>uploads := 1\<rparr>, ''u2'' \<mapsto> bob_doc],
               files = [(''f1'', ann_file)],
               objects = [''uploads/u1/5_a.jpg'' \<mapsto> ann_object],
               bucket_name = ''demo.appspot.com''\<rparr>"

text \<open>Two uploads of the same name by the same principal within one millisecond.\<close>

definition first_upload :: result where
  "first_upload = upload_handler (platform [] 1000 ''f1'') (Some photo) ''u1'' two_users"

definition second_upload :: result where
  "second_upload = upload_handler (platform [] 1000 ''f2'') (Some retake) ''u1'' (post first_upload)"

text \<open>
  The same installation with a file of bob beside the file of ann, and an upload by ann
  that the record store stamps later than her stored file.
\<close>

definition bob_file :: fileData where
  "bob_file = \<lparr>userId = ''u2'', fileName = ''b.png'', storagePath = ''uploads/u2/6_b.png'',
               fileSize = 4, mimeType = ''image/png'',
               publicUrl = ''https://storage.googleapis.com/demo.appspot.com/uploads/u2/6_b.png'',
               uploadedAt = 6\<rparr>"

definition two_owners :: state where
  "two_owners = one_file\<lparr>files := [(''f1'', ann_file), (''g1'', bob_file)]\<rparr>"

definition later_upload :: result where
  "later_upload = upload_handler (platform [] 9 ''f2'') (Some retake) ''u1'' two_owners"

text \<open>
  Signup, one upload and the delete of that upload, on an empty installation: once
  with every platform call answering, once with the counter update of the upload failing.
\<close>

definition clean_run :: "(env \<times> request) list" where
  "clean_run =
     [(platform [] 1 ''u1'', Signup (Some ''ann@example.com'') (Some ''secret1'') None),
      (platform [] 1000 ''f1'', Upload (Some ''Bearer u1'') (Some photo)),
      (platform [] 2000 ''x'', DeleteFile (Some ''Bearer u1'') ''f1'')]"

definition faulty_run :: "(env \<times> request) list" where
  "faulty_run =
     [(platform [] 1 ''u1'', Signup (Some ''ann@example.com'') (Some ''secret1'') None),
      (platform [UsersUpdate] 1000 ''f1'', Upload (Some ''Bearer u1'') (Some photo)),
      (platform [] 2000 ''x'', DeleteFile (Some ''Bearer u1'') ''f1'')]"

section \<open>Facts about a successful upload and about the file query\<close>

lemma map_of_append_new:
  "map_of xs k = None \<Longrightarrow> map_of (xs @ [(k, v)]) k = Some v"
  by (simp add: map_add_def)

lemma in_files_query: "p \<in> set (files_query s u) \<longleftrightarrow> p \<in> set (files s) \<and> owned_by u p"
  by (simp add: files_query_def orderBy_uploadedAt_desc_def)

lemma upload_success_record:
  assumes "resp (upload_handler e (Some file) u s) = Response 200 b"
  shows "\<exists>d. map_of (files (post (upload_handler e (Some file) u s))) (newDocId e) = Some d
           \<and> userId d = u \<and> uploadedAt d = serverTime e
           \<and> storagePath d = object_name u (now e) (originalname file)
           \<and> files (post (upload_handler e (Some file) u s)) = files s @ [(newDocId e, d)]
           \<and> map_of (files s) (newDocId e) = None
           \<and> b = FileUploaded (newDocId e) (fileName d) (fileSize d) (publicUrl d) (mimeType d)"
  using assms
  by (auto simp add: upload_handler_def unhandled_def reply_def Let_def map_of_append_new
      simp del: map_of_append split: option.splits if_splits)

section \<open>Upload: failure of the object write\<close>

text \<open>
  C5. When the write of the object fails, the stream emits \<open>error\<close> and never
  \<open>finish\<close>: the caller gets the 500 answer of the upload endpoint (the handler's
  report of an object-write failure), no call to the record store is made, and the
  state after the request is the state before it, so no file record exists that was
  not there and no upload counter has moved.
\<close>

theorem upload_object_write_failure:
  assumes "fails e ObjectWrite"
  shows "resp (upload_handler e (Some file) u s) = Response 500 (Error ''Failed to upload file'')
       \<and> trace (upload_handler e (Some file) u s) = [ObjectWrite]
       \<and> files (post (upload_handler e (Some file) u s)) = files s
       \<and> users (post (upload_handler e (Some file) u s)) = users s
       \<and> post (upload_handler e (Some file) u s) = s"
  using assms by (simp add: upload_handler_def reply_def Let_def)

theorem upload_object_write_failure_witness:
  "fails (platform [ObjectWrite] 1000 ''f9'') ObjectWrite
   \<and> resp (upload_handler (platform [ObjectWrite] 1000 ''f9'') (Some photo) ''u1'' two_users)
       = Response 500 (Error ''Failed to upload file'')
   \<and> post (upload_handler (platform [ObjectWrite] 1000 ''f9'') (Some photo) ''u1'' two_users)
       = two_users"
proof -
  have h: "fails (platform [ObjectWrite] 1000 ''f9'') ObjectWrite"
    by (simp add: fails_def platform_def)
  show ?thesis
    using h upload_object_write_failure [OF h, of photo "''u1''" two_users] by simp
qed

section \<open>Delete: failure of the object delete\<close>

text \<open>
  The delete handler has one \<open>catch\<close> for all its calls. On the installation with
  ann's one file, a failing delete of the object and a failing delete of the record get
  the same response, although the first leaves the state alone and the second has
  already removed the object and left the record behind: the response does not say
  which stage failed.
\<close>

theorem delete_failures_same_report:
  "resp (delete_handler (platform [ObjectDelete] 20 ''x'') ''f1'' ''u1'' one_file)
     = Response 500 (Error ''Failed to delete file'')
   \<and> resp (delete_handler (platform [FilesDelete] 20 ''x'') ''f1'' ''u1'' one_file)
     = resp (delete_handler (platform [ObjectDelete] 20 ''x'') ''f1'' ''u1'' one_file)
   \<and> post (delete_handler (platform [ObjectDelete] 20 ''x'') ''f1'' ''u1'' one_file) = one_file
   \<and> objects (post (delete_handler (platform [FilesDelete] 20 ''x'') ''f1'' ''u1'' one_file))
        ''uploads/u1/5_a.jpg'' = None
   \<and> map_of (files (post (delete_handler (platform [FilesDelete] 20 ''x'') ''f1'' ''u1'' one_file))) ''f1''
     = Some ann_file"
  by (simp add: delete_handler_def reply_def Let_def fails_def platform_def one_file_def ann_file_def)

text \<open>
  C4 (as the code has it). When the record exists and belongs to the caller and the
  delete of the object fails, the delete of the record is not attempted and the state is
  unchanged: the file record is still there. The caller gets 500 with the message
  \<open>Failed to delete file\<close>, which is the only error body of the endpoint besides 404
  and 403, for whichever call failed.
\<close>

theorem delete_object_failure_keeps_record:
  assumes "\<not> fails e FilesGet"
      and "map_of (files s) fileId = Some fileDoc"
      and "userId fileDoc = u"
      and "fails e ObjectDelete \<or> objects s (storagePath fileDoc) = None"
  shows "resp (delete_handler e fileId u s) = Response 500 (Error ''Failed to delete file'')
       \<and> trace (delete_handler e fileId u s) = [FilesGet, ObjectDelete]
       \<and> FilesDelete \<notin> set (trace (delete_handler e fileId u s))
       \<and> map_of (files (post (delete_handler e fileId u s))) fileId = Some fileDoc
       \<and> post (delete_handler e fileId u s) = s
       \<and> (\<forall>e' fileId' u' s'.
             resp (delete_handler e' fileId' u' s')
               \<in> {Response 200 FileDeleted, Response 404 (Error ''File not found''),
                   Response 403 (Error ''Unauthorized''),
                   Response 500 (Error ''Failed to delete file'')})"
proof -
  have here: "resp (delete_handler e fileId u s) = Response 500 (Error ''Failed to delete file'')
       \<and> trace (delete_handler e fileId u s) = [FilesGet, ObjectDelete]
       \<and> FilesDelete \<notin> set (trace (delete_handler e fileId u s))
       \<and> map_of (files (post (delete_handler e fileId u s))) fileId = Some fileDoc
       \<and> post (delete_handler e fileId u s) = s"
    using assms by (auto simp add: delete_handler_def reply_def Let_def)
  have anywhere: "resp (delete_handler e' fileId' u' s')
               \<in> {Response 200 FileDeleted, Response 404 (Error ''File not found''),
                   Response 403 (Error ''Unauthorized''),
                   Response 500 (Error ''Failed to delete file'')}" for e' fileId' u' s'
    by (simp add: delete_handler_def reply_def Let_def split: option.splits)
  from here anywhere show ?thesis by blast
qed

theorem delete_object_failure_keeps_record_witness:
  "\<not> fails (platform [ObjectDelete] 20 ''x'') FilesGet
   \<and> map_of (files one_file) ''f1'' = Some ann_file
   \<and> userId ann_file = ''u1''
   \<and> fails (platform [ObjectDelete] 20 ''x'') ObjectDelete
   \<and> resp (delete_handler (platform [ObjectDelete] 20 ''x'') ''f1'' ''u1'' one_file)
       = Response 500 (Error ''Failed to delete file'')
   \<and> FilesDelete \<notin> set (trace (delete_handler (platform [ObjectDelete] 20 ''x'') ''f1'' ''u1'' one_file))
   \<and> post (delete_handler (platform [ObjectDelete] 20 ''x'') ''f1'' ''u1'' one_file) = one_file"
proof -
  have h1: "\<not> fails (platform [ObjectDelete] 20 ''x'') FilesGet"
    by (simp add: fails_def platform_def)
  have h2: "map_of (files one_file) ''f1'' = Some ann_file"
    by (simp add: one_file_def)
  have h3: "userId ann_file = ''u1''"
    by (simp add: ann_file_def)
  have h4: "fails (platform [ObjectDelete] 20 ''x'') ObjectDelete"
    by (simp add: fails_def platform_def)
  have h4': "fails (platform [ObjectDelete] 20 ''x'') ObjectDelete
            \<or> objects one_file (storagePath ann_file) = None"
    using h4 by simp
  show ?thesis
    using h1 h2 h3 h4 delete_object_failure_keeps_record [OF h1 h2 h3 h4'] by blast
qed

section \<open>Delete: a file of another principal\<close>

text \<open>
  C6. A delete request that names an existing file record whose \<open>userId\<close> is not the
  caller's uid changes nothing: the state after the request is the state before it
  (object, record and every upload counter included), and, the lookup of the record
  having answered, the response is 403.
\<close>

theorem delete_foreign_file_forbidden:
  assumes "map_of (files s) fileId = Some fileDoc"
      and "userId fileDoc \<noteq> u"
  shows "post (delete_handler e fileId u s) = s
       \<and> ObjectDelete \<notin> set (trace (delete_handler e fileId u s))
       \<and> FilesDelete \<notin> set (trace (delete_handler e fileId u s))
       \<and> UsersUpdate \<notin> set (trace (delete_handler e fileId u s))
       \<and> (\<not> fails e FilesGet \<longrightarrow>
            resp (delete_handler e fileId u s) = Response 403 (Error ''Unauthorized''))"
  using assms by (auto simp add: delete_handler_def reply_def Let_def)

theorem delete_foreign_file_forbidden_witness:
  "map_of (files one_file) ''f1'' = Some ann_file
   \<and> userId ann_file \<noteq> ''u2''
   \<and> \<not> fails (platform [] 20 ''x'') FilesGet
   \<and> post (delete_handler (platform [] 20 ''x'') ''f1'' ''u2'' one_file) = one_file
   \<and> resp (delete_handler (platform [] 20 ''x'') ''f1'' ''u2'' one_file)
       = Response 403 (Error ''Unauthorized'')"
proof -
  have h1: "map_of (files one_file) ''f1'' = Some ann_file"
    by (simp add: one_file_def)
  have h2: "userId ann_file \<noteq> ''u2''"
    by (simp add: ann_file_def)
  have h3: "\<not> fails (platform [] 20 ''x'') FilesGet"
    by (simp add: fails_def platform_def)
  show ?thesis
    using h1 h2 h3 delete_foreign_file_forbidden [OF h1 h2, of "platform [] 20 ''x''"]
    by simp
qed

section \<open>Signup: the default display name\<close>

lemma split_from_first:
  "\<exists>rest. split_from [c] acc s = (rev acc @ takeWhile (\<lambda>x. x \<noteq> c) s) # rest"
proof (induction s arbitrary: acc)
  case Nil
  show ?case by simp
next
  case (Cons a s)
  show ?case
  proof (cases "a = c")
    case True
    then show ?thesis by simp
  next
    case False
    with Cons [of "a # acc"] show ?thesis by simp
  qed
qed

lemma js_split_first: "js_index (js_split [c] s) 0 = Some (takeWhile (\<lambda>x. x \<noteq> c) s)"
proof -
  obtain rest where "split_from [c] [] s = takeWhile (\<lambda>x. x \<noteq> c) s # rest"
    using split_from_first [of c "[]" s] by auto
  then show ?thesis by (simp add: js_split_def js_index_def)
qed

text \<open>
  C10. A signup without \<open>displayName\<close> that is answered with 201 has created a user
  record and a \<open>users\<close> document whose display names are both the part of the email
  before the first \<open>@\<close>.
\<close>

theorem signup_default_displayName:
  assumes "resp (signup e (Some em) (Some pw) None s) = Response 201 b"
  shows "(\<exists>r \<in> set (authUsers (post (signup e (Some em) (Some pw) None s))).
            uid r = newUid e \<and> ur_email r = em
            \<and> ur_displayName r = Some (takeWhile (\<lambda>c. c \<noteq> CHR ''@'') em))
       \<and> (\<exists>d. users (post (signup e (Some em) (Some pw) None s)) (newUid e) = Some d
             \<and> email d = em
             \<and> displayName d = takeWhile (\<lambda>c. c \<noteq> CHR ''@'') em)
       \<and> b = UserCreated (newUid e) em (Some (takeWhile (\<lambda>c. c \<noteq> CHR ''@'') em))"
  using assms js_split_first [of "CHR ''@''" em]
  by (auto simp add: signup_def reply_def Let_def split: if_splits option.splits)



theorem signup_default_displayName_witness:
  "resp (signup (platform [] 40 ''u3'') (Some ''cat@example.com'') (Some ''secret3'') None two_users)
     = Response 201 (UserCreated ''u3'' ''cat@example.com'' (Some ''cat''))
   \<and> (\<exists>d. users (post (signup (platform [] 40 ''u3'') (Some ''cat@example.com'') (Some ''secret3'')
                             None two_users)) (newUid (platform [] 40 ''u3'')) = Some d
          \<and> email d = ''cat@example.com''
          \<and> displayName d = takeWhile (\<lambda>c. c \<noteq> CHR ''@'') ''cat@example.com'')"
proof -
  have h: "resp (signup (platform [] 40 ''u3'') (Some ''cat@example.com'') (Some ''secret3'') None two_users)
     = Response 201 (UserCreated ''u3'' ''cat@example.com'' (Some ''cat''))"
    by (simp add: signup_def reply_def Let_def fails_def platform_def two_users_def ann_def bob_def
        getUser_def getUserByEmail_def js_split_def js_index_def)
  show ?thesis
    using h signup_default_displayName [OF h] by blast
qed

section \<open>Login: the password is not checked\<close>

text \<open>
  C9. The login handler reads the password only to test that it is present. For a
  registered email and any two non-empty passwords, whatever password the identity
  provider holds for that user, the two requests have the same outcome, and, the three
  platform calls having answered, that outcome is 200 with the custom token; the 401
  branch is reached by a failing platform call, never by a wrong password.
\<close>

theorem login_ignores_password:
  assumes "getUserByEmail s em = Some userRecord" and "em \<noteq> []" and "p1 \<noteq> []" and "p2 \<noteq> []"
      and "\<not> fails e AuthGetUserByEmail" and "\<not> fails e AuthCreateCustomToken"
      and "\<not> fails e UsersGet"
  shows "(\<exists>dn up. resp (login e (Some em) (Some p1) s) =
            Response 200 (LoginSuccessful (signedToken e) (uid userRecord) (ur_email userRecord) dn up))
       \<and> login e (Some em) (Some p2) s = login e (Some em) (Some p1) s
       \<and> post (login e (Some em) (Some p1) s) = s"
  using assms by (simp add: login_def reply_def Let_def)

theorem login_ignores_password_witness:
  "getUserByEmail two_users ''ann@example.com'' = Some ann
   \<and> ur_password ann \<noteq> ''wrong''
   \<and> ur_password ann \<noteq> ''guess''
   \<and> resp (login (platform [] 30 ''x'') (Some ''ann@example.com'') (Some ''wrong'') two_users)
       = Response 200 (LoginSuccessful ''token'' ''u1'' ''ann@example.com'' ''ann'' 0)
   \<and> login (platform [] 30 ''x'') (Some ''ann@example.com'') (Some ''guess'') two_users
       = login (platform [] 30 ''x'') (Some ''ann@example.com'') (Some ''wrong'') two_users"
proof -
  have h1: "getUserByEmail two_users ''ann@example.com'' = Some ann"
    by (simp add: getUserByEmail_def two_users_def ann_def)
  have h2: "''ann@example.com'' \<noteq> []" and h3: "''wrong'' \<noteq> []" and h4: "''guess'' \<noteq> []"
    by simp_all
  have h5: "\<not> fails (platform [] 30 ''x'') AuthGetUserByEmail"
    and h6: "\<not> fails (platform [] 30 ''x'') AuthCreateCustomToken"
    and h7: "\<not> fails (platform [] 30 ''x'') UsersGet"
    by (simp_all add: fails_def platform_def)
  have r: "resp (login (platform [] 30 ''x'') (Some ''ann@example.com'') (Some ''wrong'') two_users)
       = Response 200 (LoginSuccessful ''token'' ''u1'' ''ann@example.com'' ''ann'' 0)"
    using h1 by (simp add: login_def reply_def Let_def fails_def platform_def two_users_def ann_def ann_doc_def)
  show ?thesis
    using h1 r login_ignores_password [OF h1 h2 h3 h4 h5 h6 h7]
    by (simp add: ann_def)
qed

section \<open>Upload: failure of the record create\<close>

text \<open>
  A run in which \<open>add\<close> throws after the object was written: the handler sends no
  response at all (so no error that names the object), it never calls the delete of the
  object, and the bucket holds an object that no file record refers to.
\<close>

theorem upload_record_create_failure_counterexample:
  "resp (upload_handler (platform [FilesAdd] 1000 ''f9'') (Some photo) ''u1'' two_users) = NoResponse
   \<and> ObjectDelete \<notin> set (trace (upload_handler (platform [FilesAdd] 1000 ''f9'') (Some photo) ''u1'' two_users))
   \<and> objects (post (upload_handler (platform [FilesAdd] 1000 ''f9'') (Some photo) ''u1'' two_users))
        (object_name ''u1'' 1000 ''a.jpg'') \<noteq> None
   \<and> files (post (upload_handler (platform [FilesAdd] 1000 ''f9'') (Some photo) ''u1'' two_users)) = []"
  by (simp add: upload_handler_def unhandled_def reply_def Let_def fails_def platform_def
      two_users_def photo_def)

text \<open>
  C1 (as the code has it). When the object write and \<open>makePublic\<close> succeed and the
  create of the file record fails, no later stage runs and nothing is undone: the calls
  made are the write, \<open>makePublic\<close> and \<open>add\<close>, the delete of the object is not
  among them, the object just written stays in the bucket, no file record is created and
  no upload counter changes.
\<close>

theorem upload_record_create_failure:
  assumes "\<not> fails e ObjectWrite" and "\<not> fails e ObjectMakePublic"
      and "fails e FilesAdd \<or> map_of (files s) (newDocId e) \<noteq> None"
  shows "trace (upload_handler e (Some file) u s) = [ObjectWrite, ObjectMakePublic, FilesAdd]
       \<and> ObjectDelete \<notin> set (trace (upload_handler e (Some file) u s))
       \<and> objects (post (upload_handler e (Some file) u s)) (object_name u (now e) (originalname file))
           = Some \<lparr>content = buffer file, contentType = mimetype file, uploadedBy = u,
                   originalName = originalname file, isPublic = True\<rparr>
       \<and> files (post (upload_handler e (Some file) u s)) = files s
       \<and> users (post (upload_handler e (Some file) u s)) = users s"
  using assms by (auto simp add: upload_handler_def unhandled_def Let_def)

theorem upload_record_create_failure_witness:
  "\<not> fails (platform [FilesAdd] 1000 ''f9'') ObjectWrite
   \<and> \<not> fails (platform [FilesAdd] 1000 ''f9'') ObjectMakePublic
   \<and> fails (platform [FilesAdd] 1000 ''f9'') FilesAdd
   \<and> trace (upload_handler (platform [FilesAdd] 1000 ''f9'') (Some photo) ''u1'' two_users)
       = [ObjectWrite, ObjectMakePublic, FilesAdd]
   \<and> files (post (upload_handler (platform [FilesAdd] 1000 ''f9'') (Some photo) ''u1'' two_users))
       = files two_users"
proof -
  have h1: "\<not> fails (platform [FilesAdd] 1000 ''f9'') ObjectWrite"
    and h2: "\<not> fails (platform [FilesAdd] 1000 ''f9'') ObjectMakePublic"
    by (simp_all add: fails_def platform_def)
  have h3: "fails (platform [FilesAdd] 1000 ''f9'') FilesAdd"
    by (simp add: fails_def platform_def)
  have h3': "fails (platform [FilesAdd] 1000 ''f9'') FilesAdd
             \<or> map_of (files two_users) (newDocId (platform [FilesAdd] 1000 ''f9'')) \<noteq> None"
    using h3 by simp
  show ?thesis
    using h1 h2 h3 upload_record_create_failure [OF h1 h2 h3', of photo "''u1''"] by blast
qed

section \<open>Upload: failure of the counter update\<close>

text \<open>
  A run in which the counter update throws after the record was created: the record is
  in the store, and the caller gets no response, hence no success report.
\<close>

theorem upload_counter_failure_counterexample:
  "resp (upload_handler (platform [UsersUpdate] 1000 ''f9'') (Some photo) ''u1'' two_users) = NoResponse
   \<and> map_option userId
        (map_of (files (post (upload_handler (platform [UsersUpdate] 1000 ''f9'') (Some photo) ''u1'' two_users)))
           ''f9'') = Some ''u1''"
  by (simp add: upload_handler_def unhandled_def reply_def Let_def fails_def platform_def
      two_users_def photo_def)

text \<open>
  C2 (as the code has it). When the object write, \<open>makePublic\<close> and the record create
  succeed and the counter update fails (the platform fails it, or the principal has no
  \<open>users\<close> document), the 200 success response is not sent; the file record just
  created is in the store under the id the platform assigned and is returned by the
  owner's file query, the object is in the bucket, neither a delete of the object nor a
  delete of the record is called, and the \<open>users\<close> collection is unchanged.
\<close>

theorem upload_counter_failure:
  assumes "\<not> fails e ObjectWrite" and "\<not> fails e ObjectMakePublic"
      and "\<not> fails e FilesAdd" and "map_of (files s) (newDocId e) = None"
      and "fails e UsersUpdate \<or> users s u = None"
  shows "(\<forall>b. resp (upload_handler e (Some file) u s) \<noteq> Response 200 b)
       \<and> (\<exists>fileDoc. map_of (files (post (upload_handler e (Some file) u s))) (newDocId e) = Some fileDoc
             \<and> userId fileDoc = u
             \<and> storagePath fileDoc = object_name u (now e) (originalname file)
             \<and> (newDocId e, fileDoc) \<in> set (files_query (post (upload_handler e (Some file) u s)) u))
       \<and> objects (post (upload_handler e (Some file) u s)) (object_name u (now e) (originalname file)) \<noteq> None
       \<and> ObjectDelete \<notin> set (trace (upload_handler e (Some file) u s))
       \<and> FilesDelete \<notin> set (trace (upload_handler e (Some file) u s))
       \<and> users (post (upload_handler e (Some file) u s)) = users s"
  using assms
  by (auto simp add: upload_handler_def unhandled_def Let_def map_of_append_new in_files_query owned_by_def
      simp del: map_of_append split: option.splits)

theorem upload_counter_failure_witness:
  "\<not> fails (platform [UsersUpdate] 1000 ''f9'') ObjectWrite
   \<and> \<not> fails (platform [UsersUpdate] 1000 ''f9'') ObjectMakePublic
   \<and> \<not> fails (platform [UsersUpdate] 1000 ''f9'') FilesAdd
   \<and> map_of (files two_users) (newDocId (platform [UsersUpdate] 1000 ''f9'')) = None
   \<and> fails (platform [UsersUpdate] 1000 ''f9'') UsersUpdate
   \<and> (\<forall>b. resp (upload_handler (platform [UsersUpdate] 1000 ''f9'') (Some photo) ''u1'' two_users)
            \<noteq> Response 200 b)
   \<and> users (post (upload_handler (platform [UsersUpdate] 1000 ''f9'') (Some photo) ''u1'' two_users))
       = users two_users"
proof -
  have h1: "\<not> fails (platform [UsersUpdate] 1000 ''f9'') ObjectWrite"
    and h2: "\<not> fails (platform [UsersUpdate] 1000 ''f9'') ObjectMakePublic"
    and h3: "\<not> fails (platform [UsersUpdate] 1000 ''f9'') FilesAdd"
    by (simp_all add: fails_def platform_def)
  have h4: "map_of (files two_users) (newDocId (platform [UsersUpdate] 1000 ''f9'')) = None"
    by (simp add: two_users_def)
  have h5: "fails (platform [UsersUpdate] 1000 ''f9'') UsersUpdate"
    by (simp add: fails_def platform_def)
  have h5': "fails (platform [UsersUpdate] 1000 ''f9'') UsersUpdate \<or> users two_users ''u1'' = None"
    using h5 by simp
  show ?thesis
    using h1 h2 h3 h4 h5 upload_counter_failure [OF h1 h2 h3 h4 h5', of photo] by blast
qed

section \<open>Upload: the storage path\<close>

lemma of_char_digit: "d < 10 \<Longrightarrow> of_char (digit_char d) = (48 + d :: nat)"
  by (simp add: digit_char_def)

lemma decimal_value_decimal: "decimal_value (decimal n) = n"
proof (induction n rule: decimal.induct)
  case (1 n)
  show ?case
  proof (cases "n < 10")
    case True
    then show ?thesis
      by (subst decimal.simps) (simp add: decimal_value_def of_char_digit)
  next
    case False
    then have "decimal_value (decimal (n div 10)) = n div 10"
      using "1" by simp
    moreover have "decimal n = decimal (n div 10) @ [digit_char (n mod 10)]"
      using False by (subst decimal.simps) simp
    ultimately show ?thesis
      by (simp add: decimal_value_def of_char_digit)
  qed
qed

lemma decimal_inj:
  assumes "decimal a = decimal b"
  shows "a = b"
proof -
  have "decimal_value (decimal a) = decimal_value (decimal b)"
    using assms by (rule arg_cong)
  then show ?thesis by (simp only: decimal_value_decimal)
qed

lemma decimal_digits: "c \<in> set (decimal n) \<Longrightarrow> 48 \<le> (of_char c :: nat) \<and> (of_char c :: nat) < 58"
proof (induction n rule: decimal.induct)
  case (1 n)
  show ?case
  proof (cases "n < 10")
    case True
    with "1.prems" have "c = digit_char n"
      by (subst (asm) decimal.simps) simp
    with True show ?thesis by (simp add: of_char_digit)
  next
    case False
    with "1.prems" have "c \<in> set (decimal (n div 10)) \<or> c = digit_char (n mod 10)"
      by (subst (asm) decimal.simps) auto
    then show ?thesis
    proof
      assume "c \<in> set (decimal (n div 10))"
      with False "1.IH" show ?thesis by simp
    next
      assume "c = digit_char (n mod 10)"
      then show ?thesis by (simp add: of_char_digit)
    qed
  qed
qed

lemma decimal_no_minus: "CHR ''-'' \<notin> set (decimal n)"
proof
  assume "CHR ''-'' \<in> set (decimal n)"
  then have "48 \<le> (of_char CHR ''-'' :: nat)" by (rule decimal_digits [THEN conjunct1])
  then show False by simp
qed

lemma decimal_no_underscore: "CHR ''_'' \<notin> set (decimal n)"
proof
  assume "CHR ''_'' \<in> set (decimal n)"
  then have "(of_char CHR ''_'' :: nat) < 58" by (rule decimal_digits [THEN conjunct2])
  then show False by simp
qed

lemma decimal_not_signed: "decimal a \<noteq> CHR ''-'' # decimal b"
proof
  assume "decimal a = CHR ''-'' # decimal b"
  then have "CHR ''-'' \<in> set (decimal a)" by simp
  with decimal_no_minus show False by blast
qed

lemma number_string_inj: "number_string a = number_string b \<Longrightarrow> a = b"
proof -
  assume eq: "number_string a = number_string b"
  consider "a < 0" "b < 0" | "a < 0" "\<not> b < 0" | "\<not> a < 0" "b < 0" | "\<not> a < 0" "\<not> b < 0"
    by blast
  then show "a = b"
  proof cases
    case 1
    with eq have "nat (- a) = nat (- b)"
      by (simp add: number_string_def decimal_inj)
    with 1 show ?thesis by simp
  next
    case 2
    with eq decimal_not_signed [of "nat b" "nat (- a)"] show ?thesis
      by (simp add: number_string_def)
  next
    case 3
    with eq decimal_not_signed [of "nat a" "nat (- b)"] show ?thesis
      by (simp add: number_string_def)
  next
    case 4
    with eq have "nat a = nat b"
      by (simp add: number_string_def decimal_inj)
    with 4 show ?thesis by simp
  qed
qed

lemma number_string_no_underscore: "CHR ''_'' \<notin> set (number_string t)"
  using decimal_no_underscore by (simp add: number_string_def)

lemma append_sep_inj:
  "c \<notin> set a \<Longrightarrow> c \<notin> set b \<Longrightarrow> a @ c # x = b @ c # y \<Longrightarrow> a = b \<and> x = y"
proof (induction a arbitrary: b)
  case Nil
  then show ?case by (cases b) auto
next
  case (Cons h a)
  then show ?case by (cases b) auto
qed

lemma object_name_inj:
  assumes "CHR ''/'' \<notin> set u1" and "CHR ''/'' \<notin> set u2"
      and "object_name u1 t1 n1 = object_name u2 t2 n2"
  shows "u1 = u2 \<and> t1 = t2 \<and> n1 = n2"
proof -
  from assms(3) have eq: "u1 @ CHR ''/'' # (number_string t1 @ CHR ''_'' # n1)
                    = u2 @ CHR ''/'' # (number_string t2 @ CHR ''_'' # n2)"
    by (simp add: object_name_def)
  note step1 = append_sep_inj [OF assms(1) assms(2) eq]
  note step2 = append_sep_inj [OF number_string_no_underscore number_string_no_underscore
      step1 [THEN conjunct2]]
  have "t1 = t2" using step2 [THEN conjunct1] by (rule number_string_inj)
  with step1 step2 show ?thesis by simp
qed

lemma object_name_example: "object_name ''u1'' 1000 ''a.jpg'' = ''uploads/u1/1000_a.jpg''"
  by code_simp

lemma first_upload_eval:
  "first_upload = reply 200 (FileUploaded ''f1'' ''a.jpg'' 3
       (public_url ''demo.appspot.com'' (object_name ''u1'' 1000 ''a.jpg'')) ''image/jpeg'')
     [ObjectWrite, ObjectMakePublic, FilesAdd, UsersUpdate]
     \<lparr>authUsers = [ann, bob],
      users = [''u1'' \<mapsto> ann_doc\<lparr>uploads := 1\<rparr>, ''u2'' \<mapsto> bob_doc],
      files = [(''f1'', \<lparr>userId = ''u1'', fileName = ''a.jpg'', storagePath = object_name ''u1'' 1000 ''a.jpg'',
                  fileSize = 3, mimeType = ''image/jpeg'',
                  publicUrl = public_url ''demo.appspot.com'' (object_name ''u1'' 1000 ''a.jpg''),
                  uploadedAt = 1000\<rparr>)],
      objects = [object_name ''u1'' 1000 ''a.jpg'' \<mapsto>
                   \<lparr>content = [255, 216, 255], contentType = ''image/jpeg'', uploadedBy = ''u1'',
                    originalName = ''a.jpg'', isPublic = True\<rparr>],
      bucket_name = ''demo.appspot.com''\<rparr>"
  by (simp add: first_upload_def upload_handler_def reply_def Let_def fails_def platform_def
      two_users_def photo_def increment_def ann_doc_def fun_upd_twist)

text \<open>
  Both uploads are answered with 200, both file records carry the same storage path,
  and the object at that path holds the bytes of the second upload: the first object
  was overwritten.
\<close>

theorem same_millisecond_same_path:
  "resp first_upload = Response 200 (FileUploaded ''f1'' ''a.jpg'' 3
       (public_url ''demo.appspot.com'' (object_name ''u1'' 1000 ''a.jpg'')) ''image/jpeg'')
   \<and> resp second_upload = Response 200 (FileUploaded ''f2'' ''a.jpg'' 2
       (public_url ''demo.appspot.com'' (object_name ''u1'' 1000 ''a.jpg'')) ''image/jpeg'')
   \<and> map_option storagePath (map_of (files (post second_upload)) ''f1'') = Some (object_name ''u1'' 1000 ''a.jpg'')
   \<and> map_option storagePath (map_of (files (post second_upload)) ''f2'') = Some (object_name ''u1'' 1000 ''a.jpg'')
   \<and> map_option content (objects (post second_upload) (object_name ''u1'' 1000 ''a.jpg'')) = Some [7, 8]
   \<and> object_name ''u1'' 1000 ''a.jpg'' = ''uploads/u1/1000_a.jpg''"
  by (simp add: second_upload_def first_upload_eval upload_handler_def reply_def Let_def fails_def
      platform_def retake_def increment_def object_name_example)

text \<open>
  C3 (as the code has it). The storage path is
  \<open>uploads/<uid>/<Date.now()>_<originalname>\<close>. For principals whose uids contain no
  \<open>/\<close>, two successful uploads that differ in the uid, in the millisecond read from
  the clock or in the original file name store file records with distinct storage
  paths.
\<close>

theorem upload_paths_distinct:
  assumes "resp (upload_handler e1 (Some file1) u1 s1) = Response 200 b1"
      and "resp (upload_handler e2 (Some file2) u2 s2) = Response 200 b2"
      and "CHR ''/'' \<notin> set u1" and "CHR ''/'' \<notin> set u2"
      and "(u1, now e1, originalname file1) \<noteq> (u2, now e2, originalname file2)"
  shows "\<exists>d1 d2. map_of (files (post (upload_handler e1 (Some file1) u1 s1))) (newDocId e1) = Some d1
           \<and> map_of (files (post (upload_handler e2 (Some file2) u2 s2))) (newDocId e2) = Some d2
           \<and> storagePath d1 = object_name u1 (now e1) (originalname file1)
           \<and> storagePath d2 = object_name u2 (now e2) (originalname file2)
           \<and> storagePath d1 \<noteq> storagePath d2"
proof -
  obtain d1 where d1: "map_of (files (post (upload_handler e1 (Some file1) u1 s1))) (newDocId e1) = Some d1"
      "storagePath d1 = object_name u1 (now e1) (originalname file1)"
    using upload_success_record [OF assms(1)] by blast
  obtain d2 where d2: "map_of (files (post (upload_handler e2 (Some file2) u2 s2))) (newDocId e2) = Some d2"
      "storagePath d2 = object_name u2 (now e2) (originalname file2)"
    using upload_success_record [OF assms(2)] by blast
  have "storagePath d1 \<noteq> storagePath d2"
    using object_name_inj [OF assms(3,4)] assms(5) d1(2) d2(2) by auto
  with d1 d2 show ?thesis by blast
qed

theorem upload_paths_distinct_witness:
  "resp (upload_handler (platform [] 1000 ''f1'') (Some photo) ''u1'' two_users)
     = Response 200 (FileUploaded ''f1'' ''a.jpg'' 3
         (public_url ''demo.appspot.com'' (object_name ''u1'' 1000 ''a.jpg'')) ''image/jpeg'')
   \<and> resp (upload_handler (platform [] 1001 ''f2'') (Some retake) ''u1'' (post first_upload))
     = Response 200 (FileUploaded ''f2'' ''a.jpg'' 2
         (public_url ''demo.appspot.com'' (object_name ''u1'' 1001 ''a.jpg'')) ''image/jpeg'')
   \<and> CHR ''/'' \<notin> set ''u1''
   \<and> (''u1'', now (platform [] 1000 ''f1''), originalname photo)
       \<noteq> (''u1'', now (platform [] 1001 ''f2''), originalname retake)
   \<and> object_name ''u1'' (now (platform [] 1000 ''f1'')) (originalname photo)
       \<noteq> object_name ''u1'' (now (platform [] 1001 ''f2'')) (originalname retake)"
proof -
  have h1: "resp (upload_handler (platform [] 1000 ''f1'') (Some photo) ''u1'' two_users)
     = Response 200 (FileUploaded ''f1'' ''a.jpg'' 3
         (public_url ''demo.appspot.com'' (object_name ''u1'' 1000 ''a.jpg'')) ''image/jpeg'')"
    using first_upload_eval by (simp add: first_upload_def reply_def)
  have h2: "resp (upload_handler (platform [] 1001 ''f2'') (Some retake) ''u1'' (post first_upload))
     = Response 200 (FileUploaded ''f2'' ''a.jpg'' 2
         (public_url ''demo.appspot.com'' (object_name ''u1'' 1001 ''a.jpg'')) ''image/jpeg'')"
    by (simp add: first_upload_eval upload_handler_def reply_def Let_def fails_def
        platform_def retake_def increment_def)
  have h3: "CHR ''/'' \<notin> set ''u1''"
    by simp
  have h4: "(''u1'', now (platform [] 1000 ''f1''), originalname photo)
       \<noteq> (''u1'', now (platform [] 1001 ''f2''), originalname retake)"
    by (simp add: platform_def)
  have "object_name ''u1'' (now (platform [] 1000 ''f1'')) (originalname photo)
       \<noteq> object_name ''u1'' (now (platform [] 1001 ''f2'')) (originalname retake)"
    using upload_paths_distinct [OF h1 h2 h3 h3 h4] by auto
  with h1 h2 h3 h4 show ?thesis by blast
qed

section \<open>The file list\<close>

lemma query_sorted_desc:
  "sorted_wrt (\<lambda>a b. uploadedAt (snd b) \<le> uploadedAt (snd a)) (files_query s u)"
proof -
  have "sorted (map (\<lambda>p. - uploadedAt (snd p))
          (sort_key (\<lambda>p. - uploadedAt (snd p)) (filter (owned_by u) (files s))))"
    by (rule sorted_sort_key)
  then show ?thesis
    by (simp add: files_query_def orderBy_uploadedAt_desc_def sorted_map)
qed

lemma owned_by_userId: "owned_by u = (\<lambda>p. userId (snd p) = u)"
  by (rule ext) (simp add: owned_by_def)

lemma query_mset: "mset (files_query s u) = mset (filter (\<lambda>p. userId (snd p) = u) (files s))"
  by (simp add: files_query_def orderBy_uploadedAt_desc_def owned_by_userId)

lemma fresh_id_not_in: "map_of xs k = None \<Longrightarrow> (k, v) \<notin> set xs"
  by (auto simp add: map_of_eq_None_iff image_iff)

lemma new_record_listed_once:
  assumes "files s = files s0 @ [(k, d)]" and "map_of (files s0) k = None" and "userId d = u"
  shows "\<exists>pre suf. files_query s u = pre @ (k, d) # suf
           \<and> k \<notin> fst ` set pre \<and> k \<notin> fst ` set suf
           \<and> (\<forall>p \<in> set pre. uploadedAt d \<le> uploadedAt (snd p))"
proof -
  have "(k, d) \<in> set (files_query s u)"
    using assms by (simp add: in_files_query owned_by_def)
  then obtain pre suf where split: "files_query s u = pre @ (k, d) # suf"
    by (auto simp add: in_set_conv_decomp)
  have other: "p \<in> set (files_query s u) \<Longrightarrow> fst p = k \<Longrightarrow> p = (k, d)" for p
    using assms(1,2) by (cases p) (auto simp add: in_files_query dest: fresh_id_not_in)
  have "count (mset (files_query s u)) (k, d) = 1"
    using assms fresh_id_not_in [OF assms(2), of d]
    by (simp add: query_mset count_mset_0_iff [THEN iffD2])
  then have once: "(k, d) \<notin> set pre \<and> (k, d) \<notin> set suf"
    by (simp add: split count_mset_0_iff [symmetric] del: count_mset_0_iff)
  have "k \<notin> fst ` set pre"
  proof
    assume "k \<in> fst ` set pre"
    then obtain p where "p \<in> set pre" "fst p = k" by auto
    with other [of p] split once show False by auto
  qed
  moreover have "k \<notin> fst ` set suf"
  proof
    assume "k \<in> fst ` set suf"
    then obtain p where "p \<in> set suf" "fst p = k" by auto
    with other [of p] split once show False by auto
  qed
  moreover have "\<forall>p \<in> set pre. uploadedAt d \<le> uploadedAt (snd p)"
    using query_sorted_desc [of s u] by (simp add: split sorted_wrt_append)
  ultimately show ?thesis using split by blast
qed

lemma sort_key_last_smallest:
  "\<forall>y \<in> set ys. f x < f y \<Longrightarrow> sort_key f (ys @ [x]) = x # sort_key f ys"
  by (induction ys) auto

lemma new_record_listed_first:
  assumes "files s = files s0 @ [(k, d)]" and "userId d = u"
      and "\<forall>p \<in> set (files s0). userId (snd p) = u \<longrightarrow> uploadedAt (snd p) < uploadedAt d"
  shows "files_query s u = (k, d) # files_query s0 u"
proof -
  have "\<forall>y \<in> set (filter (owned_by u) (files s0)). - uploadedAt (snd (k, d)) < - uploadedAt (snd y)"
    using assms(3) by (simp add: owned_by_def)
  then have "sort_key (\<lambda>p. - uploadedAt (snd p)) (filter (owned_by u) (files s0) @ [(k, d)])
             = (k, d) # sort_key (\<lambda>p. - uploadedAt (snd p)) (filter (owned_by u) (files s0))"
    by (rule sort_key_last_smallest)
  then show ?thesis
    using assms(1,2) by (simp add: files_query_def orderBy_uploadedAt_desc_def owned_by_def)
qed

lemma fresh_id_not_listed: "map_of (files s0) k = None \<Longrightarrow> k \<notin> fst ` set (files_query s0 u)"
  by (auto simp add: in_files_query map_of_eq_None_iff image_iff)

lemma later_upload_files:
  "files (post later_upload) =
     [(''f1'', ann_file), (''g1'', bob_file),
      (''f2'', \<lparr>userId = ''u1'', fileName = ''a.jpg'', storagePath = object_name ''u1'' 9 ''a.jpg'',
                fileSize = 2, mimeType = ''image/jpeg'',
                publicUrl = public_url ''demo.appspot.com'' (object_name ''u1'' 9 ''a.jpg''),
                uploadedAt = 9\<rparr>)]"
  by (simp add: later_upload_def upload_handler_def reply_def Let_def fails_def platform_def
      two_owners_def one_file_def retake_def)

lemma later_upload_resp:
  "resp (upload_handler (platform [] 9 ''f2'') (Some retake) ''u1'' two_owners)
     = Response 200 (FileUploaded ''f2'' ''a.jpg'' 2
         (public_url ''demo.appspot.com'' (object_name ''u1'' 9 ''a.jpg'')) ''image/jpeg'')"
  by (simp add: upload_handler_def reply_def Let_def fails_def platform_def two_owners_def
      one_file_def retake_def)

lemma later_upload_query:
  "files_query (post later_upload) ''u1'' =
     [(''f2'', \<lparr>userId = ''u1'', fileName = ''a.jpg'', storagePath = object_name ''u1'' 9 ''a.jpg'',
                fileSize = 2, mimeType = ''image/jpeg'',
                publicUrl = public_url ''demo.appspot.com'' (object_name ''u1'' 9 ''a.jpg''),
                uploadedAt = 9\<rparr>),
      (''f1'', ann_file)]"
  by (simp add: files_query_def orderBy_uploadedAt_desc_def later_upload_files owned_by_def
      ann_file_def bob_file_def)

lemma earlier_query: "files_query two_owners ''u1'' = [(''f1'', ann_file)]"
  by (simp add: files_query_def orderBy_uploadedAt_desc_def two_owners_def one_file_def
      owned_by_def ann_file_def bob_file_def)

text \<open>
  C8. When the query answers, the file list endpoint responds 200 with the list
  \<open>files_query s u\<close> and its length as \<open>count\<close>, and leaves the state alone. The list
  holds exactly the stored file records whose \<open>userId\<close> is the caller's uid, each as
  often as the store holds it, in descending order of \<open>uploadedAt\<close>. If the state is
  the one left by a successful upload of the caller, the record of that upload is in the
  list under its id exactly once with no earlier-stamped entry before it; and when the
  record store has stamped it later than every record the caller had before (the stamp is
  the store's time of the write), it is the first entry and the caller's earlier records
  follow it in their former order.
\<close>

theorem list_files_owner_newest_first:
  assumes "\<not> fails e FilesQuery"
  shows "resp (files_handler e u s) = Response 200 (FileList (length (files_query s u)) (files_query s u))
       \<and> post (files_handler e u s) = s
       \<and> mset (files_query s u) = mset (filter (\<lambda>p. userId (snd p) = u) (files s))
       \<and> sorted_wrt (\<lambda>a b. uploadedAt (snd b) \<le> uploadedAt (snd a)) (files_query s u)
       \<and> (\<forall>e' file s0 b.
             resp (upload_handler e' (Some file) u s0) = Response 200 b
             \<and> s = post (upload_handler e' (Some file) u s0) \<longrightarrow>
             (\<exists>d pre suf. files_query s u = pre @ (newDocId e', d) # suf
                \<and> b = FileUploaded (newDocId e') (fileName d) (fileSize d) (publicUrl d) (mimeType d)
                \<and> uploadedAt d = serverTime e'
                \<and> newDocId e' \<notin> fst ` set pre \<and> newDocId e' \<notin> fst ` set suf
                \<and> (\<forall>p \<in> set pre. uploadedAt d \<le> uploadedAt (snd p)))
             \<and> ((\<forall>p \<in> set (files s0). userId (snd p) = u \<longrightarrow> uploadedAt (snd p) < serverTime e') \<longrightarrow>
                  (\<exists>d. files_query s u = (newDocId e', d) # files_query s0 u
                     \<and> userId d = u \<and> uploadedAt d = serverTime e'
                     \<and> newDocId e' \<notin> fst ` set (files_query s0 u))))"
proof -
  have a: "resp (files_handler e u s) = Response 200 (FileList (length (files_query s u)) (files_query s u))
       \<and> post (files_handler e u s) = s"
    using assms by (simp add: files_handler_def reply_def Let_def)
  have b: "(\<exists>d pre suf. files_query s u = pre @ (newDocId e', d) # suf
                \<and> b = FileUploaded (newDocId e') (fileName d) (fileSize d) (publicUrl d) (mimeType d)
                \<and> uploadedAt d = serverTime e'
                \<and> newDocId e' \<notin> fst ` set pre \<and> newDocId e' \<notin> fst ` set suf
                \<and> (\<forall>p \<in> set pre. uploadedAt d \<le> uploadedAt (snd p)))
           \<and> ((\<forall>p \<in> set (files s0). userId (snd p) = u \<longrightarrow> uploadedAt (snd p) < serverTime e') \<longrightarrow>
                  (\<exists>d. files_query s u = (newDocId e', d) # files_query s0 u
                     \<and> userId d = u \<and> uploadedAt d = serverTime e'
                     \<and> newDocId e' \<notin> fst ` set (files_query s0 u)))"
    if ok: "resp (upload_handler e' (Some f) u s0) = Response 200 b"
      and s: "s = post (upload_handler e' (Some f) u s0)" for e' f s0 b
  proof -
    obtain d where d: "files s = files s0 @ [(newDocId e', d)]" "map_of (files s0) (newDocId e') = None"
        "userId d = u" "uploadedAt d = serverTime e'"
        "b = FileUploaded (newDocId e') (fileName d) (fileSize d) (publicUrl d) (mimeType d)"
      using upload_success_record [OF ok] s by blast
    have once: "\<exists>d pre suf. files_query s u = pre @ (newDocId e', d) # suf
                \<and> b = FileUploaded (newDocId e') (fileName d) (fileSize d) (publicUrl d) (mimeType d)
                \<and> uploadedAt d = serverTime e'
                \<and> newDocId e' \<notin> fst ` set pre \<and> newDocId e' \<notin> fst ` set suf
                \<and> (\<forall>p \<in> set pre. uploadedAt d \<le> uploadedAt (snd p))"
      using new_record_listed_once [OF d(1,2,3)] d(4,5) by blast
    have first: "\<exists>d. files_query s u = (newDocId e', d) # files_query s0 u
                     \<and> userId d = u \<and> uploadedAt d = serverTime e'
                     \<and> newDocId e' \<notin> fst ` set (files_query s0 u)"
      if later: "\<forall>p \<in> set (files s0). userId (snd p) = u \<longrightarrow> uploadedAt (snd p) < serverTime e'"
    proof -
      have "files_query s u = (newDocId e', d) # files_query s0 u"
        using d(1,3) later d(4) by (intro new_record_listed_first) simp_all
      with d(3,4) fresh_id_not_listed [OF d(2), of u] show ?thesis by blast
    qed
    from once first show ?thesis by blast
  qed
  from a b query_mset [of s u] query_sorted_desc [of s u] show ?thesis by blast
qed

theorem list_files_owner_newest_first_witness:
  "\<not> fails (platform [] 10 ''x'') FilesQuery
   \<and> resp (upload_handler (platform [] 9 ''f2'') (Some retake) ''u1'' two_owners)
       = Response 200 (FileUploaded ''f2'' ''a.jpg'' 2
           (public_url ''demo.appspot.com'' (object_name ''u1'' 9 ''a.jpg'')) ''image/jpeg'')
   \<and> uploadedAt ann_file < serverTime (platform [] 9 ''f2'')
   \<and> (''g1'', bob_file) \<in> set (files (post later_upload))
   \<and> resp (files_handler (platform [] 10 ''x'') ''u1'' (post later_upload))
       = Response 200 (FileList 2
           [(''f2'', \<lparr>userId = ''u1'', fileName = ''a.jpg'', storagePath = object_name ''u1'' 9 ''a.jpg'',
                fileSize = 2, mimeType = ''image/jpeg'',
                publicUrl = public_url ''demo.appspot.com'' (object_name ''u1'' 9 ''a.jpg''),
                uploadedAt = 9\<rparr>),
            (''f1'', ann_file)])
   \<and> (\<exists>d. files_query (post later_upload) ''u1'' = (''f2'', d) # [(''f1'', ann_file)]
          \<and> userId d = ''u1'' \<and> uploadedAt d = 9)"
proof -
  have h: "\<not> fails (platform [] 10 ''x'') FilesQuery"
    by (simp add: fails_def platform_def)
  have stamps: "\<forall>p \<in> set (files two_owners).
          userId (snd p) = ''u1'' \<longrightarrow> uploadedAt (snd p) < serverTime (platform [] 9 ''f2'')"
    by (simp add: two_owners_def one_file_def ann_file_def bob_file_def platform_def)
  have foreign: "(''g1'', bob_file) \<in> set (files (post later_upload))"
    by (simp add: later_upload_files)
  note all = list_files_owner_newest_first [OF h, of "''u1''" "post later_upload"]
  have listed: "resp (files_handler (platform [] 10 ''x'') ''u1'' (post later_upload))
       = Response 200 (FileList 2
           [(''f2'', \<lparr>userId = ''u1'', fileName = ''a.jpg'', storagePath = object_name ''u1'' 9 ''a.jpg'',
                fileSize = 2, mimeType = ''image/jpeg'',
                publicUrl = public_url ''demo.appspot.com'' (object_name ''u1'' 9 ''a.jpg''),
                uploadedAt = 9\<rparr>),
            (''f1'', ann_file)])"
    using all [THEN conjunct1] by (simp add: later_upload_query)
  from all have "resp (upload_handler (platform [] 9 ''f2'') (Some retake) ''u1'' two_owners)
       = Response 200 (FileUploaded ''f2'' ''a.jpg'' 2
           (public_url ''demo.appspot.com'' (object_name ''u1'' 9 ''a.jpg'')) ''image/jpeg'')
     \<and> post later_upload = post (upload_handler (platform [] 9 ''f2'') (Some retake) ''u1'' two_owners)
     \<longrightarrow> ((\<forall>p \<in> set (files two_owners).
             userId (snd p) = ''u1'' \<longrightarrow> uploadedAt (snd p) < serverTime (platform [] 9 ''f2'')) \<longrightarrow>
          (\<exists>d. files_query (post later_upload) ''u1''
                  = (newDocId (platform [] 9 ''f2''), d) # files_query two_owners ''u1''
             \<and> userId d = ''u1'' \<and> uploadedAt d = serverTime (platform [] 9 ''f2'')
             \<and> newDocId (platform [] 9 ''f2'') \<notin> fst ` set (files_query two_owners ''u1'')))"
    by blast
  with later_upload_resp stamps
  have "\<exists>d. files_query (post later_upload) ''u1''
                  = (newDocId (platform [] 9 ''f2''), d) # files_query two_owners ''u1''
             \<and> userId d = ''u1'' \<and> uploadedAt d = serverTime (platform [] 9 ''f2'')
             \<and> newDocId (platform [] 9 ''f2'') \<notin> fst ` set (files_query two_owners ''u1'')"
    by (simp only: later_upload_def simp_thms)
  then have "\<exists>d. files_query (post later_upload) ''u1'' = (''f2'', d) # [(''f1'', ann_file)]
          \<and> userId d = ''u1'' \<and> uploadedAt d = 9"
    unfolding platform_def env.simps earlier_query by blast
  moreover have "uploadedAt ann_file < serverTime (platform [] 9 ''f2'')"
    by (simp add: ann_file_def platform_def)
  ultimately show ?thesis
    using h later_upload_resp foreign listed by blast
qed

section \<open>The upload counter\<close>

lemma getUser_registered: "getUser s u \<noteq> None \<longleftrightarrow> u \<in> uid ` set (authUsers s)"
  by (auto simp add: getUser_def find_None_iff)

lemma covers_iff:
  "counter_covers_records s \<longleftrightarrow>
     (\<forall>u d. users s u = Some d \<longrightarrow> int (length (filter (owned_by u) (files s))) \<le> uploads d)
     \<and> (\<forall>u d. users s u = Some d \<longrightarrow> u \<in> uid ` set (authUsers s))
     \<and> (\<forall>p \<in> set (files s). userId (snd p) \<in> uid ` set (authUsers s))"
  unfolding counter_covers_records_def getUser_registered by auto

lemma filter_filter_le: "length (filter P (filter Q xs)) \<le> length (filter P xs)"
  by (induction xs) auto

lemma filter_filter_less:
  "x \<in> set xs \<Longrightarrow> P x \<Longrightarrow> \<not> Q x \<Longrightarrow> length (filter P (filter Q xs)) < length (filter P xs)"
proof (induction xs)
  case Nil
  then show ?case by simp
next
  case (Cons a xs)
  show ?case
  proof (cases "a = x")
    case True
    with Cons.prems filter_filter_le [of P Q xs] show ?thesis by simp
  next
    case False
    with Cons show ?thesis by auto
  qed
qed

lemma no_records_of_unregistered:
  assumes "counter_covers_records s" and "getUser s u = None"
  shows "filter (owned_by u) (files s) = []" and "users s u = None"
proof -
  have nu: "u \<notin> uid ` set (authUsers s)"
    using assms(2) getUser_registered [of s u] by simp
  show "filter (owned_by u) (files s) = []"
    using assms(1) nu by (auto simp add: covers_iff filter_empty_conv owned_by_def)
  show "users s u = None"
  proof (cases "users s u")
    case None
    then show ?thesis .
  next
    case (Some d)
    with assms(1) nu show ?thesis by (simp add: covers_iff)
  qed
qed

lemma covers_initial: "counter_covers_records (initial b)"
  by (simp add: covers_iff initial_def)

lemma covers_objects [simp]:
  "counter_covers_records (s\<lparr>objects := ob\<rparr>) = counter_covers_records s"
  by (simp add: covers_iff)

lemma covers_new_user:
  assumes "counter_covers_records s" and "getUser s n = None" and "uid r = n"
  shows "counter_covers_records (s\<lparr>authUsers := authUsers s @ [r]\<rparr>)"
    and "uploads d = 0 \<Longrightarrow>
         counter_covers_records (s\<lparr>authUsers := authUsers s @ [r], users := (users s)(n \<mapsto> d)\<rparr>)"
proof -
  show "counter_covers_records (s\<lparr>authUsers := authUsers s @ [r]\<rparr>)"
    using assms(1) by (auto simp add: covers_iff)
  assume z: "uploads d = 0"
  have none: "filter (owned_by n) (files s) = []"
    using assms(1,2) by (rule no_records_of_unregistered)
  show "counter_covers_records (s\<lparr>authUsers := authUsers s @ [r], users := (users s)(n \<mapsto> d)\<rparr>)"
    using assms(1,3) z none by (auto simp add: covers_iff)
qed

lemma covers_new_record_no_doc:
  assumes "counter_covers_records s" and "getUser s u \<noteq> None" and "users s u = None"
      and "userId d = u"
  shows "counter_covers_records (s\<lparr>files := files s @ [(k, d)]\<rparr>)"
proof -
  have reg: "u \<in> uid ` set (authUsers s)"
    using assms(2) by (simp only: getUser_registered)
  show ?thesis
    using assms(1,3,4) reg by (auto simp add: covers_iff owned_by_def)
qed

lemma covers_new_record_counted:
  assumes "counter_covers_records s" and "getUser s u \<noteq> None" and "users s u = Some ud"
      and "userId d = u"
  shows "counter_covers_records
           (s\<lparr>files := files s @ [(k, d)], users := (users s)(u \<mapsto> increment 1 ud)\<rparr>)"
proof -
  have reg: "u \<in> uid ` set (authUsers s)"
    using assms(2) by (simp only: getUser_registered)
  show ?thesis
    using assms(1,3,4) reg by (auto simp add: covers_iff owned_by_def increment_def)
qed

lemma covers_record_removed:
  assumes "counter_covers_records s"
  shows "counter_covers_records (s\<lparr>files := filter (\<lambda>p. fst p \<noteq> k) (files s)\<rparr>)"
proof -
  have "int (length (filter (owned_by u) (filter (\<lambda>p. fst p \<noteq> k) (files s)))) \<le> uploads d"
    if "users s u = Some d" for u d
  proof -
    have "int (length (filter (owned_by u) (files s))) \<le> uploads d"
      using assms that by (simp add: covers_iff)
    with filter_filter_le [of "owned_by u" "\<lambda>p. fst p \<noteq> k" "files s"] show ?thesis by linarith
  qed
  with assms show ?thesis by (auto simp add: covers_iff)
qed

lemma covers_record_removed_counted:
  assumes "counter_covers_records s" and "map_of (files s) k = Some fd" and "userId fd = u"
      and "users s u = Some ud"
  shows "counter_covers_records
           (s\<lparr>files := filter (\<lambda>p. fst p \<noteq> k) (files s), users := (users s)(u \<mapsto> increment (- 1) ud)\<rparr>)"
proof -
  have mem: "(k, fd) \<in> set (files s)"
    using assms(2) by (rule map_of_SomeD)
  have "length (filter (owned_by u) (filter (\<lambda>p. fst p \<noteq> k) (files s)))
          < length (filter (owned_by u) (files s))"
    using mem assms(3) by (intro filter_filter_less [of "(k, fd)"]) (simp_all add: owned_by_def)
  moreover have "int (length (filter (owned_by u) (files s))) \<le> uploads ud"
    using assms(1,4) by (simp add: covers_iff)
  ultimately have own: "int (length (filter (owned_by u) (filter (\<lambda>p. fst p \<noteq> k) (files s)))) \<le> uploads ud - 1"
    by linarith
  have rest: "counter_covers_records (s\<lparr>files := filter (\<lambda>p. fst p \<noteq> k) (files s)\<rparr>)"
    using assms(1) by (rule covers_record_removed)
  show ?thesis
    using rest own assms(1,4) by (auto simp add: covers_iff increment_def)
qed

lemma signup_covers:
  assumes "counter_covers_records s"
  shows "counter_covers_records (post (signup e em pw dn s))"
  using assms
  by (auto simp add: signup_def reply_def Let_def covers_new_user split: option.splits)

lemma login_post: "post (login e em pw s) = s"
  by (auto simp add: login_def reply_def Let_def split: option.splits)

lemma verifyToken_cases:
  "(\<exists>r. verifyToken e h s = Inl r \<and> post r = s)
   \<or> (\<exists>u. verifyToken e h s = Inr u \<and> getUser s u \<noteq> None)"
proof (cases "verifyToken e h s")
  case (Inl r)
  then have "post r = s"
    by (auto simp add: verifyToken_def reply_def split: option.splits if_splits)
  with Inl show ?thesis by simp
next
  case (Inr u)
  then obtain r where "getUser s (uid r) = Some r \<or> (\<exists>t. getUser s t = Some r)" "u = uid r"
    by (auto simp add: verifyToken_def reply_def split: option.splits if_splits)
  then have "u \<in> uid ` set (authUsers s)"
    by (auto simp add: getUser_def find_Some_iff)
  with Inr show ?thesis using getUser_registered [of s u] by blast
qed

lemma protected_covers:
  assumes "counter_covers_records s"
      and "\<And>u. getUser s u \<noteq> None \<Longrightarrow> counter_covers_records (post (handler u s))"
  shows "counter_covers_records (post (protected handler e h s))"
  using verifyToken_cases [of e h s] assms
  by (auto simp add: protected_def Let_def)

lemma upload_post_cases:
  "post (upload_handler e f u s) = s
   \<or> (\<exists>ob. post (upload_handler e f u s) = s\<lparr>objects := ob\<rparr>)
   \<or> (\<exists>ob d. userId d = u
        \<and> ((users s u = None \<or> fails e UsersUpdate)
             \<and> post (upload_handler e f u s) = s\<lparr>objects := ob, files := files s @ [(newDocId e, d)]\<rparr>
           \<or> (\<exists>ud b. users s u = Some ud
                \<and> resp (upload_handler e f u s) = Response 200 b
                \<and> post (upload_handler e f u s)
                    = s\<lparr>objects := ob, files := files s @ [(newDocId e, d)],
                        users := (users s)(u \<mapsto> increment 1 ud)\<rparr>)))"
proof (cases f)
  case None
  then show ?thesis by (simp add: upload_handler_def reply_def)
next
  case (Some fl)
  show ?thesis
  proof (cases "users s u")
    case None
    with \<open>f = Some fl\<close> show ?thesis
      by (simp add: upload_handler_def reply_def unhandled_def Let_def) force
  next
    case (Some ud)
    with \<open>f = Some fl\<close> show ?thesis
      by (simp add: upload_handler_def reply_def unhandled_def Let_def) force
  qed
qed

lemma upload_covers:
  assumes "counter_covers_records s" and "getUser s u \<noteq> None" and "\<not> fails e UsersUpdate"
  shows "counter_covers_records (post (upload_handler e f u s))"
proof -
  have base: "counter_covers_records (s\<lparr>objects := ob\<rparr>)" for ob
    using assms(1) by simp
  have reg: "getUser (s\<lparr>objects := ob\<rparr>) u \<noteq> None" for ob
    using assms(2) by (simp add: getUser_def)
  have added: "counter_covers_records (s\<lparr>objects := ob, files := files s @ [(k, d)]\<rparr>)"
    if "userId d = u" and "users s u = None" for ob d k
    using covers_new_record_no_doc [where s = "s\<lparr>objects := ob\<rparr>" and u = u and d = d and k = k,
        OF base reg] that by simp
  have counted: "counter_covers_records
      (s\<lparr>objects := ob, files := files s @ [(k, d)], users := (users s)(u \<mapsto> increment 1 ud)\<rparr>)"
    if "userId d = u" and "users s u = Some ud" for ob d k ud
    using covers_new_record_counted [where s = "s\<lparr>objects := ob\<rparr>" and u = u and d = d and k = k
        and ud = ud, OF base reg] that by simp
  from upload_post_cases [of e f u s] assms(1,3) base added counted show ?thesis
    by (elim disjE exE conjE) simp_all
qed

lemma files_post: "post (files_handler e u s) = s"
  by (simp add: files_handler_def reply_def Let_def)

lemma delete_post_cases:
  "post (delete_handler e k u s) = s
   \<or> (\<exists>fd ob. map_of (files s) k = Some fd \<and> userId fd = u
        \<and> (post (delete_handler e k u s) = s\<lparr>objects := ob\<rparr>
           \<or> post (delete_handler e k u s)
               = s\<lparr>objects := ob, files := filter (\<lambda>p. fst p \<noteq> k) (files s)\<rparr>
           \<or> (\<exists>ud. users s u = Some ud
                \<and> resp (delete_handler e k u s) = Response 200 FileDeleted
                \<and> post (delete_handler e k u s)
                    = s\<lparr>objects := ob, files := filter (\<lambda>p. fst p \<noteq> k) (files s),
                        users := (users s)(u \<mapsto> increment (- 1) ud)\<rparr>)))"
  by (auto simp add: delete_handler_def reply_def Let_def split: option.splits)

lemma delete_covers:
  assumes "counter_covers_records s"
  shows "counter_covers_records (post (delete_handler e k u s))"
proof -
  have base: "counter_covers_records (s\<lparr>objects := ob\<rparr>)" for ob
    using assms by simp
  have removed: "counter_covers_records (s\<lparr>objects := ob, files := filter (\<lambda>p. fst p \<noteq> k) (files s)\<rparr>)"
    for ob
    using covers_record_removed [where s = "s\<lparr>objects := ob\<rparr>" and k = k, OF base] by simp
  have counted: "counter_covers_records
      (s\<lparr>objects := ob, files := filter (\<lambda>p. fst p \<noteq> k) (files s),
         users := (users s)(u \<mapsto> increment (- 1) ud)\<rparr>)"
    if "map_of (files s) k = Some fd" and "userId fd = u" and "users s u = Some ud" for ob fd ud
    using covers_record_removed_counted [where s = "s\<lparr>objects := ob\<rparr>" and k = k and fd = fd
        and u = u and ud = ud, OF base] that by simp
  from delete_post_cases [of e k u s] assms base removed counted show ?thesis
    by (elim disjE exE conjE) simp_all
qed

lemma serve_covers:
  assumes "counter_covers_records s" and "increment_served (e, r)"
  shows "counter_covers_records (post (serve e r s))"
proof (cases r)
  case (Signup em pw dn)
  with assms(1) show ?thesis by (simp add: signup_covers)
next
  case (Login em pw)
  with assms(1) show ?thesis by (simp add: login_post)
next
  case (Upload h f)
  with assms(2) have "\<not> fails e UsersUpdate" by (simp add: increment_served_def)
  with assms(1) Upload show ?thesis by (simp add: protected_covers upload_covers)
next
  case (ListFiles h)
  with assms(1) show ?thesis by (simp add: protected_covers files_post)
next
  case (DeleteFile h k)
  with assms(1) show ?thesis by (simp add: protected_covers delete_covers)
next
  case Health
  with assms(1) show ?thesis by (simp add: reply_def)
qed

lemma run_covers:
  "counter_covers_records s \<Longrightarrow> list_all increment_served reqs
   \<Longrightarrow> counter_covers_records (run reqs s)"
proof (induction reqs arbitrary: s)
  case Nil
  then show ?case by simp
next
  case (Cons er reqs)
  from Cons.prems have "counter_covers_records (post (serve (fst er) (snd er) s))"
    by (intro serve_covers) simp_all
  with Cons show ?case by simp
qed

lemma signed_up:
  "post (serve (platform [] 1 ''u1'') (Signup (Some ''ann@example.com'') (Some ''secret1'') None)
          (initial ''demo.appspot.com''))
   = \<lparr>authUsers = [\<lparr>uid = ''u1'', ur_email = ''ann@example.com'', ur_password = ''secret1'',
                     ur_displayName = Some ''ann''\<rparr>],
      users = [''u1'' \<mapsto> \<lparr>email = ''ann@example.com'', displayName = ''ann'', createdAt = 1, uploads = 0\<rparr>],
      files = [], objects = Map.empty, bucket_name = ''demo.appspot.com''\<rparr>"
  by (simp add: signup_def reply_def Let_def fails_def platform_def initial_def
      getUser_def getUserByEmail_def js_split_def js_index_def)

lemma bearer_u1:
  "verifyToken (platform fs t i) (Some ''Bearer u1'')
     \<lparr>authUsers = [\<lparr>uid = ''u1'', ur_email = ''ann@example.com'', ur_password = ''secret1'',
                     ur_displayName = Some ''ann''\<rparr>],
      users = us, files = fl, objects = ob, bucket_name = bn\<rparr>
   = (if AuthGetUser \<in> set fs
      then Inl (reply 401 (ErrorDetails ''Invalid or expired token'' ''Please login again'') [AuthGetUser]
             \<lparr>authUsers = [\<lparr>uid = ''u1'', ur_email = ''ann@example.com'', ur_password = ''secret1'',
                     ur_displayName = Some ''ann''\<rparr>],
              users = us, files = fl, objects = ob, bucket_name = bn\<rparr>)
      else Inr ''u1'')"
  by (simp add: verifyToken_def js_split_def js_index_def getUser_def fails_def platform_def)

lemma uploaded_uncounted:
  "post (serve (platform [UsersUpdate] 1000 ''f1'') (Upload (Some ''Bearer u1'') (Some photo))
     \<lparr>authUsers = [\<lparr>uid = ''u1'', ur_email = ''ann@example.com'', ur_password = ''secret1'',
                     ur_displayName = Some ''ann''\<rparr>],
      users = [''u1'' \<mapsto> \<lparr>email = ''ann@example.com'', displayName = ''ann'', createdAt = 1, uploads = 0\<rparr>],
      files = [], objects = Map.empty, bucket_name = ''demo.appspot.com''\<rparr>)
   = \<lparr>authUsers = [\<lparr>uid = ''u1'', ur_email = ''ann@example.com'', ur_password = ''secret1'',
                     ur_displayName = Some ''ann''\<rparr>],
      users = [''u1'' \<mapsto> \<lparr>email = ''ann@example.com'', displayName = ''ann'', createdAt = 1, uploads = 0\<rparr>],
      files = [(''f1'', \<lparr>userId = ''u1'', fileName = ''a.jpg'', storagePath = object_name ''u1'' 1000 ''a.jpg'',
                  fileSize = 3, mimeType = ''image/jpeg'',
                  publicUrl = public_url ''demo.appspot.com'' (object_name ''u1'' 1000 ''a.jpg''),
                  uploadedAt = 1000\<rparr>)],
      objects = [object_name ''u1'' 1000 ''a.jpg'' \<mapsto>
                   \<lparr>content = [255, 216, 255], contentType = ''image/jpeg'', uploadedBy = ''u1'',
                    originalName = ''a.jpg'', isPublic = True\<rparr>],
      bucket_name = ''demo.appspot.com''\<rparr>"
  by (simp add: protected_def bearer_u1)
     (simp add: upload_handler_def unhandled_def reply_def Let_def fails_def platform_def photo_def)

lemma uploaded_counted:
  "post (serve (platform [] 1000 ''f1'') (Upload (Some ''Bearer u1'') (Some photo))
     \<lparr>authUsers = [\<lparr>uid = ''u1'', ur_email = ''ann@example.com'', ur_password = ''secret1'',
                     ur_displayName = Some ''ann''\<rparr>],
      users = [''u1'' \<mapsto> \<lparr>email = ''ann@example.com'', displayName = ''ann'', createdAt = 1, uploads = 0\<rparr>],
      files = [], objects = Map.empty, bucket_name = ''demo.appspot.com''\<rparr>)
   = \<lparr>authUsers = [\<lparr>uid = ''u1'', ur_email = ''ann@example.com'', ur_password = ''secret1'',
                     ur_displayName = Some ''ann''\<rparr>],
      users = [''u1'' \<mapsto> \<lparr>email = ''ann@example.com'', displayName = ''ann'', createdAt = 1, uploads = 1\<rparr>],
      files = [(''f1'', \<lparr>userId = ''u1'', fileName = ''a.jpg'', storagePath = object_name ''u1'' 1000 ''a.jpg'',
                  fileSize = 3, mimeType = ''image/jpeg'',
                  publicUrl = public_url ''demo.appspot.com'' (object_name ''u1'' 1000 ''a.jpg''),
                  uploadedAt = 1000\<rparr>)],
      objects = [object_name ''u1'' 1000 ''a.jpg'' \<mapsto>
                   \<lparr>content = [255, 216, 255], contentType = ''image/jpeg'', uploadedBy = ''u1'',
                    originalName = ''a.jpg'', isPublic = True\<rparr>],
      bucket_name = ''demo.appspot.com''\<rparr>"
  by (simp add: protected_def bearer_u1)
     (simp add: upload_handler_def unhandled_def reply_def Let_def fails_def platform_def photo_def
        increment_def)

lemma deleted_count:
  "users (post (serve (platform [] 2000 ''x'') (DeleteFile (Some ''Bearer u1'') ''f1'')
     \<lparr>authUsers = [\<lparr>uid = ''u1'', ur_email = ''ann@example.com'', ur_password = ''secret1'',
                     ur_displayName = Some ''ann''\<rparr>],
      users = [''u1'' \<mapsto> \<lparr>email = ''ann@example.com'', displayName = ''ann'', createdAt = 1, uploads = n\<rparr>],
      files = [(''f1'', \<lparr>userId = ''u1'', fileName = ''a.jpg'', storagePath = object_name ''u1'' 1000 ''a.jpg'',
                  fileSize = 3, mimeType = ''image/jpeg'',
                  publicUrl = public_url ''demo.appspot.com'' (object_name ''u1'' 1000 ''a.jpg''),
                  uploadedAt = 1000\<rparr>)],
      objects = [object_name ''u1'' 1000 ''a.jpg'' \<mapsto>
                   \<lparr>content = [255, 216, 255], contentType = ''image/jpeg'', uploadedBy = ''u1'',
                    originalName = ''a.jpg'', isPublic = True\<rparr>],
      bucket_name = ''demo.appspot.com''\<rparr>)) ''u1''
   = Some \<lparr>email = ''ann@example.com'', displayName = ''ann'', createdAt = 1, uploads = n - 1\<rparr>"
  by (simp add: protected_def bearer_u1)
     (simp add: delete_handler_def reply_def Let_def fails_def platform_def increment_def)

text \<open>
  The run \<open>faulty_run\<close>: ann signs up, uploads one file while the counter update
  fails (the record is created, the counter stays 0), then deletes that file (the
  counter is decremented). Her \<open>uploads\<close> is then \<open>-1\<close>.
\<close>

theorem faulty_increment_negative_count:
  "map_option uploads (users (run faulty_run (initial ''demo.appspot.com'')) ''u1'') = Some (- 1)"
  by (simp add: faulty_run_def signed_up uploaded_uncounted deleted_count del: serve.simps)

lemma protected_cases:
  "post (protected handler e h s) = s
   \<or> (\<exists>v. getUser s v \<noteq> None
        \<and> resp (protected handler e h s) = resp (handler v s)
        \<and> post (protected handler e h s) = post (handler v s))"
  using verifyToken_cases [of e h s]
  by (auto simp add: protected_def Let_def)

lemma signup_users_step:
  "users (post (signup e em pw dn s)) u = users s u
   \<or> (\<exists>b d. resp (signup e em pw dn s) = Response 201 b
        \<and> users (post (signup e em pw dn s)) u = Some d \<and> uploads d = 0)"
  by (auto simp add: signup_def reply_def Let_def split: option.splits)

lemma upload_users_step:
  "users (post (upload_handler e f v s)) u = users s u
   \<or> (\<exists>b d. resp (upload_handler e f v s) = Response 200 b \<and> users s u = Some d
        \<and> users (post (upload_handler e f v s)) u = Some (increment 1 d))"
  using upload_post_cases [of e f v s]
  by (elim disjE exE conjE) (cases "u = v"; simp)+

lemma delete_users_step:
  "users (post (delete_handler e k v s)) u = users s u
   \<or> (\<exists>d. resp (delete_handler e k v s) = Response 200 FileDeleted \<and> users s u = Some d
        \<and> users (post (delete_handler e k v s)) u = Some (increment (- 1) d))"
  using delete_post_cases [of e k v s]
  by (elim disjE exE conjE) (cases "u = v"; simp)+

lemma serve_users_step:
  "users (post (serve e r s)) v = users s v
   \<or> (\<exists>em pw dn b d. r = Signup em pw dn \<and> resp (serve e r s) = Response 201 b
        \<and> users (post (serve e r s)) v = Some d \<and> uploads d = 0)
   \<or> (\<exists>h f b d. r = Upload h f \<and> resp (serve e r s) = Response 200 b
        \<and> users s v = Some d \<and> users (post (serve e r s)) v = Some (increment 1 d))
   \<or> (\<exists>h k d. r = DeleteFile h k \<and> resp (serve e r s) = Response 200 FileDeleted
        \<and> users s v = Some d \<and> users (post (serve e r s)) v = Some (increment (- 1) d))"
proof (cases r)
  case (Signup em pw dn)
  with signup_users_step [of e em pw dn s v] show ?thesis by auto
next
  case (Login em pw)
  then show ?thesis by (simp add: login_post)
next
  case (Upload h f)
  from protected_cases [of "upload_handler e f" e h s] show ?thesis
  proof (elim disjE exE conjE)
    assume "post (protected (upload_handler e f) e h s) = s"
    with Upload show ?thesis by simp
  next
    fix w
    assume "resp (protected (upload_handler e f) e h s) = resp (upload_handler e f w s)"
      and "post (protected (upload_handler e f) e h s) = post (upload_handler e f w s)"
    with Upload upload_users_step [of e f w s v] show ?thesis by auto
  qed
next
  case (ListFiles h)
  from protected_cases [of "files_handler e" e h s] ListFiles show ?thesis
    by (auto simp add: files_post)
next
  case (DeleteFile h k)
  from protected_cases [of "delete_handler e k" e h s] show ?thesis
  proof (elim disjE exE conjE)
    assume "post (protected (delete_handler e k) e h s) = s"
    with DeleteFile show ?thesis by simp
  next
    fix w
    assume "resp (protected (delete_handler e k) e h s) = resp (delete_handler e k w s)"
      and "post (protected (delete_handler e k) e h s) = post (delete_handler e k w s)"
    with DeleteFile delete_users_step [of e k w s v] show ?thesis by auto
  qed
next
  case Health
  then show ?thesis by (simp add: reply_def)
qed

lemma clean_run_state:
  "users (run clean_run (initial ''demo.appspot.com'')) ''u1''
   = Some \<lparr>email = ''ann@example.com'', displayName = ''ann'', createdAt = 1, uploads = 0\<rparr>"
  by (simp add: clean_run_def signed_up uploaded_counted deleted_count del: serve.simps)

text \<open>
  C7 (as the code has it). A \<open>users\<close> document is changed by a request in three ways
  only: a signup answered 201 writes it with \<open>uploads = 0\<close>, an upload answered 200
  adds 1, a delete answered 200 subtracts 1. In every state reached from the empty
  installation by requests among which no upload has its counter update failed by the
  platform, every principal's \<open>uploads\<close> is at least the number of file records the
  principal owns, hence not negative.
\<close>

theorem upload_counter_nonnegative:
  assumes "list_all increment_served reqs"
      and "users (run reqs (initial b)) u = Some d"
  shows "0 \<le> uploads d
       \<and> int (length (filter (owned_by u) (files (run reqs (initial b))))) \<le> uploads d
       \<and> (\<forall>e r s v.
             users (post (serve e r s)) v = users s v
             \<or> (\<exists>em pw dn b' d'. r = Signup em pw dn \<and> resp (serve e r s) = Response 201 b'
                  \<and> users (post (serve e r s)) v = Some d' \<and> uploads d' = 0)
             \<or> (\<exists>h f b' d'. r = Upload h f \<and> resp (serve e r s) = Response 200 b'
                  \<and> users s v = Some d' \<and> users (post (serve e r s)) v = Some (increment 1 d'))
             \<or> (\<exists>h k d'. r = DeleteFile h k \<and> resp (serve e r s) = Response 200 FileDeleted
                  \<and> users s v = Some d' \<and> users (post (serve e r s)) v = Some (increment (- 1) d')))"
proof -
  have "counter_covers_records (run reqs (initial b))"
    using covers_initial assms(1) by (rule run_covers)
  with assms(2) have c: "int (length (filter (owned_by u) (files (run reqs (initial b))))) \<le> uploads d"
    by (simp add: covers_iff)
  then have "0 \<le> uploads d" by linarith
  with c serve_users_step show ?thesis by blast
qed

theorem upload_counter_nonnegative_witness:
  "list_all increment_served clean_run
   \<and> users (run clean_run (initial ''demo.appspot.com'')) ''u1''
       = Some \<lparr>email = ''ann@example.com'', displayName = ''ann'', createdAt = 1, uploads = 0\<rparr>
   \<and> 0 \<le> uploads \<lparr>email = ''ann@example.com'', displayName = ''ann'', createdAt = 1, uploads = 0\<rparr>
   \<and> int (length (filter (owned_by ''u1'') (files (run clean_run (initial ''demo.appspot.com'')))))
       \<le> uploads \<lparr>email = ''ann@example.com'', displayName = ''ann'', createdAt = 1, uploads = 0\<rparr>"
proof -
  have h1: "list_all increment_served clean_run"
    by (simp add: clean_run_def increment_served_def fails_def platform_def)
  note h2 = clean_run_state
  from upload_counter_nonnegative [OF h1 h2] h1 h2 show ?thesis by blast
qed

end
